theory Spec2Isabelle
  imports Main "HOL-Library.Word" "HOL-Library.Sublist"
begin

section \<open>Bytes, buffers and errors\<close>

text \<open>
  A Node \<open>Buffer\<close> is a list of bytes. A \<open>SmartBuffer\<close> is used by the voting records either
  write-only (\<open>serialize\<close>, \<open>computeHash\<close>: every write appends at the write offset, which is
  the end of the data) or read-only (\<open>deserialize\<close>: every read consumes from the read
  offset). The write view of a SmartBuffer is the list of bytes written so far; the read view
  is the list of bytes that remain after the read offset.
\<close>

type_synonym byte = "8 word"
type_synonym Buffer = "byte list"
type_synonym SmartBuffer = "byte list"

text \<open>
  The source throws plain \<open>Error\<close> objects; the model keeps one constructor per kind of
  failure: the header mismatch thrown by \<open>BallotData.deserialize\<close>, a read beyond the
  remaining bytes, and the range check of Node's fixed-width integer writers.
\<close>

datatype error = FormatError | UnderrunError | RangeError

text \<open>\<open>Buffer.alloc(n)\<close>: a zero-filled buffer.\<close>

definition Buffer_alloc :: "nat \<Rightarrow> Buffer" where
  "Buffer_alloc n = replicate n 0"

text \<open>\<open>SmartBuffer.writeBuffer(value)\<close>: appends the bytes.\<close>

definition writeBuffer :: "Buffer \<Rightarrow> SmartBuffer \<Rightarrow> SmartBuffer" where
  "writeBuffer bs buffer = buffer @ bs"

text \<open>Little-endian bytes of a number, least significant byte first, and their value.\<close>

fun le_bytes :: "nat \<Rightarrow> nat \<Rightarrow> Buffer" where
  "le_bytes 0 v = []"
| "le_bytes (Suc k) v = of_nat (v mod 256) # le_bytes k (v div 256)"

fun le_nat :: "Buffer \<Rightarrow> nat" where
  "le_nat [] = 0"
| "le_nat (b # bs) = unat b + 256 * le_nat bs"

text \<open>
  \<open>SmartBuffer.writeUInt32LE(value)\<close> hands the value to Node's \<open>Buffer.writeUInt32LE\<close>,
  which throws a range error unless \<open>0 \<le> value \<le> 2^32 - 1\<close>.
\<close>

definition writeUInt32LE :: "nat \<Rightarrow> SmartBuffer \<Rightarrow> error + SmartBuffer" where
  "writeUInt32LE v buffer =
     (if v < 2 ^ 32 then Inr (buffer @ le_bytes 4 v) else Inl RangeError)"

text \<open>
  Modelled from the spec: \<open>Utils.writeJSBigIntLE\<close> is not among the sources. The spec has
  \<open>expires\<close> "encoded as a fixed 8-byte little-endian unsigned integer"; the helper fills the
  first eight bytes of the buffer it is given.
\<close>

definition writeJSBigIntLE :: "Buffer \<Rightarrow> nat \<Rightarrow> Buffer" where
  "writeJSBigIntLE buf v = le_bytes 8 v @ drop 8 buf"

text \<open>
  Modelled from the spec: \<open>Utils.readBuffer\<close> is not among the sources. The spec asks for
  "read exactly N bytes (failing on underrun)".
\<close>

definition readBuffer :: "SmartBuffer \<Rightarrow> nat \<Rightarrow> error + Buffer \<times> SmartBuffer" where
  "readBuffer buffer n =
     (if length buffer < n then Inl UnderrunError
      else Inr (take n buffer, drop n buffer))"

section \<open>Strings and UTF-8\<close>

text \<open>
  A JavaScript string is modelled as its list of Unicode code points. \<open>Buffer.from(s)\<close>
  encodes it as UTF-8; a code point that is no Unicode scalar value (a lone surrogate)
  is written as U+FFFD. \<open>buf.toString()\<close> decodes UTF-8 the way Node does: every maximal
  ill-formed byte run becomes U+FFFD.
\<close>

type_synonym jsstring = "nat list"

definition scalar_value :: "nat \<Rightarrow> bool" where
  "scalar_value c = (c < 0x110000 \<and> \<not> (0xD800 \<le> c \<and> c < 0xE000))"

definition utf8_encode_cp :: "nat \<Rightarrow> Buffer" where
  "utf8_encode_cp c =
     (if c < 0x80 then [of_nat c]
      else if c < 0x800 then [of_nat (0xC0 + c div 64), of_nat (0x80 + c mod 64)]
      else if \<not> scalar_value c then [0xEF, 0xBF, 0xBD]
      else if c < 0x10000 then
        [of_nat (0xE0 + c div 4096), of_nat (0x80 + c div 64 mod 64), of_nat (0x80 + c mod 64)]
      else
        [of_nat (0xF0 + c div 262144), of_nat (0x80 + c div 4096 mod 64),
         of_nat (0x80 + c div 64 mod 64), of_nat (0x80 + c mod 64)])"

definition Buffer_from :: "jsstring \<Rightarrow> Buffer" where
  "Buffer_from s = concat (map utf8_encode_cp s)"

definition cont :: "nat \<Rightarrow> nat \<Rightarrow> byte \<Rightarrow> bool" where
  "cont lo hi c = (lo \<le> unat c \<and> unat c \<le> hi)"

fun toString :: "Buffer \<Rightarrow> jsstring" where
  "toString [] = []"
| "toString (b # bs) =
     (if unat b < 0x80 then unat b # toString bs
      else if 0xC2 \<le> unat b \<and> unat b \<le> 0xDF then
        (case bs of
           [] \<Rightarrow> [0xFFFD]
         | c1 # r1 \<Rightarrow>
             if cont 0x80 0xBF c1
             then (unat b mod 32 * 64 + unat c1 mod 64) # toString r1
             else 0xFFFD # toString bs)
      else if 0xE0 \<le> unat b \<and> unat b \<le> 0xEF then
        (case bs of
           [] \<Rightarrow> [0xFFFD]
         | c1 # r1 \<Rightarrow>
             if cont (if unat b = 0xE0 then 0xA0 else 0x80)
                     (if unat b = 0xED then 0x9F else 0xBF) c1
             then (case r1 of
                     [] \<Rightarrow> [0xFFFD]
                   | c2 # r2 \<Rightarrow>
                       if cont 0x80 0xBF c2
                       then (unat b mod 16 * 4096 + unat c1 mod 64 * 64 + unat c2 mod 64)
                              # toString r2
                       else 0xFFFD # toString r1)
             else 0xFFFD # toString bs)
      else if 0xF0 \<le> unat b \<and> unat b \<le> 0xF4 then
        (case bs of
           [] \<Rightarrow> [0xFFFD]
         | c1 # r1 \<Rightarrow>
             if cont (if unat b = 0xF0 then 0x90 else 0x80)
                     (if unat b = 0xF4 then 0x8F else 0xBF) c1
             then (case r1 of
                     [] \<Rightarrow> [0xFFFD]
                   | c2 # r2 \<Rightarrow>
                       if cont 0x80 0xBF c2
                       then (case r2 of
                               [] \<Rightarrow> [0xFFFD]
                             | c3 # r3 \<Rightarrow>
                                 if cont 0x80 0xBF c3
                                 then (unat b mod 8 * 262144 + unat c1 mod 64 * 4096
                                         + unat c2 mod 64 * 64 + unat c3 mod 64)
                                        # toString r3
                                 else 0xFFFD # toString r2)
                       else 0xFFFD # toString r1)
             else 0xFFFD # toString bs)
      else 0xFFFD # toString bs)"

section \<open>Keys and signatures\<close>

text \<open>
  \<open>PublicKey\<close> and \<open>Signature\<close> wrap a byte buffer (\<open>.data\<close>); the model identifies each with
  its buffer. \<open>Signature.Width\<close> is declared outside the sources; the spec gives the
  signature as 64 bytes and the public keys as 32 bytes.
\<close>

type_synonym PublicKey = Buffer
type_synonym Signature = Buffer

definition Signature_Width :: nat where
  "Signature_Width = 64"

definition SIZE_OF_PUBLIC_KEY :: nat where
  "SIZE_OF_PUBLIC_KEY = 32"

text \<open>
  Modelled from the spec: \<open>PublicKey.computeHash\<close> is not among the sources. The spec has the
  hash input take the "raw bytes" of each key.
\<close>

definition PublicKey_computeHash :: "PublicKey \<Rightarrow> SmartBuffer \<Rightarrow> SmartBuffer" where
  "PublicKey_computeHash k buffer = writeBuffer k buffer"

section \<open>The variable-length integer codec\<close>

text \<open>
  \<open>VarInt\<close> is declared outside the sources, and the spec fixes its contract, not its byte
  format. The codec is therefore a parameter of the model: \<open>fromNumber vi n\<close> and
  \<open>fromJSBI vi n\<close> are the bytes that \<open>VarInt.fromNumber(n, buffer)\<close> and
  \<open>VarInt.fromJSBI(n, buffer)\<close> append to the buffer; \<open>toNumber vi buffer\<close> and
  \<open>toJSBI vi buffer\<close> are the value decoded from the remaining bytes together with the
  bytes that remain afterwards, or the error thrown.
\<close>

record VarInt =
  fromNumber :: "nat \<Rightarrow> Buffer"
  fromJSBI :: "nat \<Rightarrow> Buffer"
  toNumber :: "SmartBuffer \<Rightarrow> error + nat \<times> SmartBuffer"
  toJSBI :: "SmartBuffer \<Rightarrow> error + nat \<times> SmartBuffer"

text \<open>
  Modelled from the spec: the contract of \<open>VarInt\<close>, which is not among the sources. The
  spec asks for a codec "supporting encode-to-stream and decode-from-stream for both
  native-width and arbitrary-precision (64-bit-safe) integers, raising an underrun failure
  on insufficient bytes": decoding what was encoded gives the value back and consumes
  exactly the encoding; decoding a proper prefix of an encoding is an underrun.
\<close>

definition VarInt_roundtrip :: "VarInt \<Rightarrow> bool" where
  "VarInt_roundtrip vi =
     ((\<forall>n rest. n < 2 ^ 32 \<longrightarrow> toNumber vi (fromNumber vi n @ rest) = Inr (n, rest)) \<and>
      (\<forall>n rest. n < 2 ^ 64 \<longrightarrow> toJSBI vi (fromJSBI vi n @ rest) = Inr (n, rest)))"

definition VarInt_underrun :: "VarInt \<Rightarrow> bool" where
  "VarInt_underrun vi =
     ((\<forall>n p. n < 2 ^ 32 \<longrightarrow> strict_prefix p (fromNumber vi n) \<longrightarrow>
               toNumber vi p = Inl UnderrunError) \<and>
      (\<forall>n p. n < 2 ^ 64 \<longrightarrow> strict_prefix p (fromJSBI vi n) \<longrightarrow>
               toJSBI vi p = Inl UnderrunError))"

text \<open>
  Modelled from the spec: the only failure the spec gives the codec is the underrun
  ("raising an underrun failure on insufficient bytes"); a decoder that throws, throws that.
\<close>

definition VarInt_throws_underrun :: "VarInt \<Rightarrow> bool" where
  "VarInt_throws_underrun vi =
     ((\<forall>buffer e. toNumber vi buffer = Inl e \<longrightarrow> e = UnderrunError) \<and>
      (\<forall>buffer e. toJSBI vi buffer = Inl e \<longrightarrow> e = UnderrunError))"

text \<open>
  One codec that meets the contract, used to run the model on concrete buffers: a value up
  to \<open>0xFC\<close> is one byte; larger values are a tag byte \<open>0xFD\<close>, \<open>0xFE\<close> or \<open>0xFF\<close>
  followed by the value in 2, 4 or 8 little-endian bytes.
\<close>

definition compact_encode :: "nat \<Rightarrow> Buffer" where
  "compact_encode n =
     (if n \<le> 0xFC then [of_nat n]
      else if n \<le> 0xFFFF then 0xFD # le_bytes 2 n
      else if n \<le> 0xFFFFFFFF then 0xFE # le_bytes 4 n
      else 0xFF # le_bytes 8 n)"

definition compact_decode :: "SmartBuffer \<Rightarrow> error + nat \<times> SmartBuffer" where
  "compact_decode buffer =
     (case buffer of
        [] \<Rightarrow> Inl UnderrunError
      | t # rest \<Rightarrow>
          if unat t \<le> 0xFC then Inr (unat t, rest)
          else
            (let k = (if unat t = 0xFD then 2 else if unat t = 0xFE then 4 else 8)
             in if length rest < k then Inl UnderrunError
                else Inr (le_nat (take k rest), drop k rest)))"

definition compact_VarInt :: VarInt where
  "compact_VarInt =
     \<lparr> fromNumber = compact_encode, fromJSBI = compact_encode,
       toNumber = compact_decode, toJSBI = compact_decode \<rparr>"

section \<open>Hashing and signature checking\<close>

text \<open>
  Modelled from the spec: \<open>PublicKey.verify\<close> is not among the sources. The spec gives
  public keys "a \<open>.verify(signature, message_bytes) -> bool\<close> capability" over a
  "signature verification primitive keyed by a public key", and says of it: "Returns
  boolean true only if the primitive reports a valid signature", "A malformed/zero
  signature returns false, never raises", "zero signature always fails verification". The
  primitive \<open>sigcheck\<close> is a parameter.
\<close>

definition PublicKey_verify ::
  "(PublicKey \<Rightarrow> Signature \<Rightarrow> Buffer \<Rightarrow> bool) \<Rightarrow> PublicKey \<Rightarrow> Signature \<Rightarrow> Buffer \<Rightarrow> bool" where
  "PublicKey_verify sigcheck key sg msg =
     (length sg = Signature_Width \<and> sg \<noteq> Buffer_alloc Signature_Width \<and> sigcheck key sg msg)"

section \<open>VoterCard\<close>

record VoterCard =
  validator_address :: PublicKey
  address :: PublicKey
  expires :: nat
  signature :: Signature

text \<open>The constructor; an omitted signature is \<open>None\<close>.\<close>

definition new_VoterCard ::
  "PublicKey \<Rightarrow> PublicKey \<Rightarrow> nat \<Rightarrow> Signature option \<Rightarrow> VoterCard" where
  "new_VoterCard va a e sg =
     \<lparr> validator_address = va, address = a, expires = e,
       signature = (case sg of Some s \<Rightarrow> s | None \<Rightarrow> Buffer_alloc Signature_Width) \<rparr>"

definition VoterCard_computeHash :: "VoterCard \<Rightarrow> SmartBuffer \<Rightarrow> SmartBuffer" where
  "VoterCard_computeHash c buffer =
     (let buffer = PublicKey_computeHash (validator_address c) buffer;
          buffer = PublicKey_computeHash (address c) buffer;
          buf = writeJSBigIntLE (Buffer_alloc 8) (expires c)
      in writeBuffer buf buffer)"

text \<open>
  The source takes the eight-byte buffer from \<open>Buffer.allocUnsafe(8)\<close>, whose contents are
  arbitrary; \<open>writeJSBigIntLE\<close> overwrites all eight bytes, so the zero-filled buffer stands
  for it.
\<close>

text \<open>
  Modelled from the spec: \<open>hashFull\<close> is not among the sources. The spec has it "compute
  hash of an object given its \<open>computeHashInput\<close> byte stream", the stream being collected
  in a new buffer; the hash function \<open>hashf\<close> is a parameter.
\<close>

definition hashFull_VoterCard :: "(Buffer \<Rightarrow> Buffer) \<Rightarrow> VoterCard \<Rightarrow> Buffer" where
  "hashFull_VoterCard hashf c = hashf (VoterCard_computeHash c [])"

definition VoterCard_verify ::
  "(Buffer \<Rightarrow> Buffer) \<Rightarrow> (PublicKey \<Rightarrow> Signature \<Rightarrow> Buffer \<Rightarrow> bool) \<Rightarrow> VoterCard \<Rightarrow> bool" where
  "VoterCard_verify hashf sigcheck c =
     (let voter_card_hash = hashFull_VoterCard hashf c
      in PublicKey_verify sigcheck (validator_address c) (VoterCard.signature c) voter_card_hash)"

definition VoterCard_serialize :: "VarInt \<Rightarrow> VoterCard \<Rightarrow> SmartBuffer \<Rightarrow> SmartBuffer" where
  "VoterCard_serialize vi c buffer =
     (let buffer = writeBuffer (validator_address c) buffer;
          buffer = writeBuffer (address c) buffer;
          buffer = writeBuffer (fromJSBI vi (expires c)) buffer
      in writeBuffer (VoterCard.signature c) buffer)"

definition VoterCard_deserialize ::
  "VarInt \<Rightarrow> SmartBuffer \<Rightarrow> error + VoterCard \<times> SmartBuffer" where
  "VoterCard_deserialize vi buffer =
     (case readBuffer buffer SIZE_OF_PUBLIC_KEY of
        Inl e \<Rightarrow> Inl e
      | Inr (validator_address', buffer) \<Rightarrow>
     (case readBuffer buffer SIZE_OF_PUBLIC_KEY of
        Inl e \<Rightarrow> Inl e
      | Inr (address', buffer) \<Rightarrow>
     (case toJSBI vi buffer of
        Inl e \<Rightarrow> Inl e
      | Inr (expires', buffer) \<Rightarrow>
     (case readBuffer buffer Signature_Width of
        Inl e \<Rightarrow> Inl e
      | Inr (signature', buffer) \<Rightarrow>
          Inr (new_VoterCard validator_address' address' expires' (Some signature'), buffer)))))"

section \<open>BallotData\<close>

text \<open>
  The record is polymorphic in what its \<open>card\<close> field holds: the card's value where only
  the contents matter, a reference into a store of cards where sharing matters. The
  constructor stores what it is given (\<open>this.card = card\<close>).
\<close>

record 'c BallotData =
  proposal_id :: jsstring
  ballot :: Buffer
  card :: 'c
  sequence :: nat
  signature :: Signature

definition HEADER :: jsstring where
  "HEADER = map of_char ''BALLOT  ''"

definition new_BallotData ::
  "jsstring \<Rightarrow> Buffer \<Rightarrow> 'c \<Rightarrow> nat \<Rightarrow> Signature option \<Rightarrow> 'c BallotData" where
  "new_BallotData pid bl c sq sg =
     \<lparr> proposal_id = pid, ballot = bl, card = c, sequence = sq,
       signature = (case sg of Some s \<Rightarrow> s | None \<Rightarrow> Buffer_alloc Signature_Width) \<rparr>"

definition BallotData_computeHash ::
  "VoterCard BallotData \<Rightarrow> SmartBuffer \<Rightarrow> error + SmartBuffer" where
  "BallotData_computeHash b buffer =
     (let buffer = writeBuffer (Buffer_from (proposal_id b)) buffer;
          buffer = writeBuffer (ballot b) buffer;
          buffer = VoterCard_computeHash (card b) buffer
      in writeUInt32LE (sequence b) buffer)"

text \<open>\<open>hashFull\<close> on a ballot (see \<open>hashFull_VoterCard\<close>); a throw of \<open>computeHash\<close> passes through.\<close>

definition hashFull_BallotData ::
  "(Buffer \<Rightarrow> Buffer) \<Rightarrow> VoterCard BallotData \<Rightarrow> error + Buffer" where
  "hashFull_BallotData hashf b =
     (case BallotData_computeHash b [] of Inl e \<Rightarrow> Inl e | Inr stream \<Rightarrow> Inr (hashf stream))"

definition BallotData_verify ::
  "(Buffer \<Rightarrow> Buffer) \<Rightarrow> (PublicKey \<Rightarrow> Signature \<Rightarrow> Buffer \<Rightarrow> bool) \<Rightarrow>
   VoterCard BallotData \<Rightarrow> error + bool" where
  "BallotData_verify hashf sigcheck b =
     (case hashFull_BallotData hashf b of
        Inl e \<Rightarrow> Inl e
      | Inr ballot_data_hash \<Rightarrow>
          Inr (PublicKey_verify sigcheck (address (card b)) (signature b) ballot_data_hash))"

definition BallotData_serialize ::
  "VarInt \<Rightarrow> VoterCard BallotData \<Rightarrow> SmartBuffer \<Rightarrow> SmartBuffer" where
  "BallotData_serialize vi b buffer =
     (let temp = Buffer_from HEADER;
          buffer = writeBuffer (fromNumber vi (length temp)) buffer;
          buffer = writeBuffer temp buffer;
          temp = Buffer_from (proposal_id b);
          buffer = writeBuffer (fromNumber vi (length temp)) buffer;
          buffer = writeBuffer temp buffer;
          buffer = writeBuffer (fromNumber vi (length (ballot b))) buffer;
          buffer = writeBuffer (ballot b) buffer;
          buffer = VoterCard_serialize vi (card b) buffer;
          buffer = writeBuffer (fromNumber vi (sequence b)) buffer
      in writeBuffer (signature b) buffer)"

definition BallotData_deserialize ::
  "VarInt \<Rightarrow> SmartBuffer \<Rightarrow> error + VoterCard BallotData \<times> SmartBuffer" where
  "BallotData_deserialize vi buffer =
     (case toNumber vi buffer of
        Inl e \<Rightarrow> Inl e
      | Inr (length', buffer) \<Rightarrow>
     (case readBuffer buffer length' of
        Inl e \<Rightarrow> Inl e
      | Inr (header, buffer) \<Rightarrow>
     if toString header \<noteq> HEADER then Inl FormatError
     else
     (case toNumber vi buffer of
        Inl e \<Rightarrow> Inl e
      | Inr (length', buffer) \<Rightarrow>
     (case readBuffer buffer length' of
        Inl e \<Rightarrow> Inl e
      | Inr (temp, buffer) \<Rightarrow>
     (let proposal_id' = toString temp in
     (case toNumber vi buffer of
        Inl e \<Rightarrow> Inl e
      | Inr (length', buffer) \<Rightarrow>
     (case readBuffer buffer length' of
        Inl e \<Rightarrow> Inl e
      | Inr (ballot', buffer) \<Rightarrow>
     (case VoterCard_deserialize vi buffer of
        Inl e \<Rightarrow> Inl e
      | Inr (card', buffer) \<Rightarrow>
     (case toNumber vi buffer of
        Inl e \<Rightarrow> Inl e
      | Inr (sequence', buffer) \<Rightarrow>
     (case readBuffer buffer Signature_Width of
        Inl e \<Rightarrow> Inl e
      | Inr (signature', buffer) \<Rightarrow>
          Inr (new_BallotData proposal_id' ballot' card' sequence' (Some signature'),
               buffer)))))))))))"

section \<open>Records as objects: the store of cards\<close>

text \<open>
  Objects live in a store; a reference is an index into it and \<open>new VoterCard(...)\<close>
  allocates at the end. A ballot object holds a reference to its card.
\<close>

type_synonym ref = nat
type_synonym store = "VoterCard list"

definition alloc_VoterCard :: "VoterCard \<Rightarrow> store \<Rightarrow> ref \<times> store" where
  "alloc_VoterCard c st = (length st, st @ [c])"

text \<open>
  \<open>BallotData.deserialize\<close> on objects: the card built by \<open>VoterCard.deserialize\<close>
  (\<open>new VoterCard(...)\<close>) is allocated in the store and the new ballot holds its reference.
\<close>

definition BallotData_deserialize_store ::
  "VarInt \<Rightarrow> SmartBuffer \<Rightarrow> store \<Rightarrow> error + ref BallotData \<times> SmartBuffer \<times> store" where
  "BallotData_deserialize_store vi buffer st =
     (case BallotData_deserialize vi buffer of
        Inl e \<Rightarrow> Inl e
      | Inr (b, buffer) \<Rightarrow>
          (let (r, st) = alloc_VoterCard (card b) st
           in Inr (new_BallotData (proposal_id b) (ballot b) r (sequence b) (Some (signature b)),
                   buffer, st)))"

section \<open>Well-formed records\<close>

text \<open>
  The field types of the spec's data model: 32-byte keys, 64-byte signatures, \<open>expires\<close> an
  unsigned 64-bit integer, \<open>sequence\<close> an unsigned 32-bit integer, \<open>proposal_id\<close> a string of
  Unicode scalar values; buffer lengths fit the 32-bit length prefix.
\<close>

definition valid_VoterCard :: "VoterCard \<Rightarrow> bool" where
  "valid_VoterCard c =
     (length (validator_address c) = SIZE_OF_PUBLIC_KEY \<and>
      length (address c) = SIZE_OF_PUBLIC_KEY \<and>
      expires c < 2 ^ 64 \<and>
      length (VoterCard.signature c) = Signature_Width)"

definition valid_BallotData :: "VoterCard BallotData \<Rightarrow> bool" where
  "valid_BallotData b =
     (list_all scalar_value (proposal_id b) \<and>
      length (Buffer_from (proposal_id b)) < 2 ^ 32 \<and>
      length (ballot b) < 2 ^ 32 \<and>
      valid_VoterCard (card b) \<and>
      sequence b < 2 ^ 32 \<and>
      length (signature b) = Signature_Width)"

section \<open>Reading in sequence\<close>

text \<open>
  A reader takes the remaining bytes and gives a value and the bytes left, or throws.
  \<open>read_then P Q\<close> runs \<open>P\<close> and hands its value to \<open>Q\<close>; a throw of \<open>P\<close> ends the read.
  \<open>decodes P e v\<close>: on the bytes \<open>e\<close>, followed by anything, \<open>P\<close> reads \<open>v\<close> and leaves what
  followed. \<open>underruns P e\<close>: on every proper prefix of \<open>e\<close>, \<open>P\<close> throws an underrun.
\<close>

definition read_then ::
  "(SmartBuffer \<Rightarrow> error + 'a \<times> SmartBuffer) \<Rightarrow> ('a \<Rightarrow> SmartBuffer \<Rightarrow> error + 'b \<times> SmartBuffer) \<Rightarrow>
   SmartBuffer \<Rightarrow> error + 'b \<times> SmartBuffer" where
  "read_then P Q buffer = (case P buffer of Inl e \<Rightarrow> Inl e | Inr (v, buffer) \<Rightarrow> Q v buffer)"

definition decodes :: "(SmartBuffer \<Rightarrow> error + 'a \<times> SmartBuffer) \<Rightarrow> Buffer \<Rightarrow> 'a \<Rightarrow> bool" where
  "decodes P e v = (\<forall>rest. P (e @ rest) = Inr (v, rest))"

definition underruns :: "(SmartBuffer \<Rightarrow> error + 'a \<times> SmartBuffer) \<Rightarrow> Buffer \<Rightarrow> bool" where
  "underruns P e = (\<forall>p. strict_prefix p e \<longrightarrow> P p = Inl UnderrunError)"

section \<open>Little-endian numbers\<close>

lemma length_le_bytes [simp]: "length (le_bytes k v) = k"
  by (induction k arbitrary: v) auto

lemma le_nat_le_bytes: "le_nat (le_bytes k v) = v mod 256 ^ k"
proof (induction k arbitrary: v)
  case 0
  then show ?case by simp
next
  case (Suc k)
  then show ?case
    using mod_mult2_eq [of v 256 "256 ^ k"] by (simp add: unat_of_nat)
qed

lemma le_nat_le_bytes_id: "v < 256 ^ k \<Longrightarrow> le_nat (le_bytes k v) = v"
  by (simp add: le_nat_le_bytes)

lemma le_bytes_2: "le_bytes 2 v = [of_nat (v mod 256), of_nat (v div 256 mod 256)]"
proof -
  have n: "(2::nat) = Suc (Suc 0)" by simp
  show ?thesis unfolding n by simp
qed

lemma le_bytes_4:
  "le_bytes 4 v = [of_nat (v mod 256), of_nat (v div 256 mod 256),
                   of_nat (v div 256 div 256 mod 256), of_nat (v div 256 div 256 div 256 mod 256)]"
proof -
  have n: "(4::nat) = Suc (Suc (Suc (Suc 0)))" by simp
  show ?thesis unfolding n by simp
qed

lemma le_bytes_8:
  "le_bytes 8 v = le_bytes 4 v @ le_bytes 4 (v div 256 div 256 div 256 div 256)"
proof -
  have n: "(8::nat) = Suc (Suc (Suc (Suc (Suc (Suc (Suc (Suc 0)))))))" by simp
  have m: "(4::nat) = Suc (Suc (Suc (Suc 0)))" by simp
  show ?thesis unfolding n m by simp
qed

section \<open>UTF-8: decoding an encoding\<close>

lemma mod_add_small: "a mod m = 0 \<Longrightarrow> q < m \<Longrightarrow> (a + q) mod m = (q::nat)"
  by (metis mod_add_left_eq add_0 mod_less)

lemma div_mod_scaled:
  fixes q k :: nat
  shows "q div 64 * (64 * k) + q mod 64 * k = q * k"
proof -
  have "q * k = (q div 64 * 64 + q mod 64) * k"
    by (simp only: div_mult_mod_eq)
  also have "\<dots> = q div 64 * (64 * k) + q mod 64 * k"
    by (simp only: distrib_right mult.assoc)
  finally show ?thesis by (rule sym)
qed

lemma split3:
  fixes c :: nat
  shows "c div 4096 * 4096 + c div 64 mod 64 * 64 + c mod 64 = c"
proof -
  have A: "c div 4096 = c div 64 div 64"
    using div_mult2_eq [of c 64 64] by simp
  have "c div 4096 * 4096 + c div 64 mod 64 * 64 = c div 64 * 64"
    unfolding A using div_mod_scaled [of "c div 64" 64] by simp
  then show ?thesis by simp
qed

lemma split4:
  fixes c :: nat
  shows "c div 262144 * 262144 + c div 4096 mod 64 * 4096 + c div 64 mod 64 * 64 + c mod 64 = c"
proof -
  have A: "c div 262144 = c div 4096 div 64"
    using div_mult2_eq [of c 4096 64] by simp
  have "c div 262144 * 262144 + c div 4096 mod 64 * 4096 = c div 4096 * 4096"
    unfolding A using div_mod_scaled [of "c div 4096" 4096] by simp
  then show ?thesis using split3 [of c] by simp
qed

lemma unat_byte: "n < 256 \<Longrightarrow> unat (of_nat n :: byte) = n"
  by (simp add: unat_of_nat)

lemma dec2:
  "0xC2 \<le> unat b \<Longrightarrow> unat b \<le> 0xDF \<Longrightarrow> cont 0x80 0xBF c1 \<Longrightarrow>
   toString (b # c1 # rest) = (unat b mod 32 * 64 + unat c1 mod 64) # toString rest"
  by simp

lemma dec3:
  "0xE0 \<le> unat b \<Longrightarrow> unat b \<le> 0xEF \<Longrightarrow>
   cont (if unat b = 0xE0 then 0xA0 else 0x80) (if unat b = 0xED then 0x9F else 0xBF) c1 \<Longrightarrow>
   cont 0x80 0xBF c2 \<Longrightarrow>
   toString (b # c1 # c2 # rest) =
     (unat b mod 16 * 4096 + unat c1 mod 64 * 64 + unat c2 mod 64) # toString rest"
  by simp

lemma dec4:
  "0xF0 \<le> unat b \<Longrightarrow> unat b \<le> 0xF4 \<Longrightarrow>
   cont (if unat b = 0xF0 then 0x90 else 0x80) (if unat b = 0xF4 then 0x8F else 0xBF) c1 \<Longrightarrow>
   cont 0x80 0xBF c2 \<Longrightarrow> cont 0x80 0xBF c3 \<Longrightarrow>
   toString (b # c1 # c2 # c3 # rest) =
     (unat b mod 8 * 262144 + unat c1 mod 64 * 4096 + unat c2 mod 64 * 64 + unat c3 mod 64)
       # toString rest"
  by simp

lemma enc1:
  assumes "c < 0x80"
  shows "toString (utf8_encode_cp c @ rest) = c # toString rest"
proof -
  have "unat (of_nat c :: byte) = c" using assms by (intro unat_byte) simp
  then show ?thesis using assms by (simp add: utf8_encode_cp_def)
qed

lemma enc2:
  assumes "0x80 \<le> c" "c < 0x800"
  shows "toString (utf8_encode_cp c @ rest) = c # toString rest"
proof -
  define q r where "q = c div 64" and "r = c mod 64"
  have c: "c = q * 64 + r" by (simp add: q_def r_def)
  have r: "r < 64" by (simp add: r_def)
  have q: "2 \<le> q" "q < 32" using c r assms by linarith+
  have e: "utf8_encode_cp c = [of_nat (0xC0 + q), of_nat (0x80 + r)]"
    using assms by (simp add: utf8_encode_cp_def q_def r_def)
  have ub: "unat (of_nat (0xC0 + q) :: byte) = 0xC0 + q"
    using q by (intro unat_byte) linarith
  have uc: "unat (of_nat (0x80 + r) :: byte) = 0x80 + r"
    using r by (intro unat_byte) linarith
  have mb: "(0xC0 + q) mod 32 = q" using q by (intro mod_add_small) simp_all
  have mc: "(0x80 + r) mod 64 = r" using r by (intro mod_add_small) simp_all
  have "toString (of_nat (0xC0 + q) # of_nat (0x80 + r) # rest)
        = (unat (of_nat (0xC0 + q) :: byte) mod 32 * 64 + unat (of_nat (0x80 + r) :: byte) mod 64)
            # toString rest"
    by (rule dec2) (simp_all only: ub uc cont_def, use q r in simp_all)
  then show ?thesis by (simp only: e ub uc mb mc c [symmetric] append_Cons append_Nil)
qed

lemma enc3:
  assumes "0x800 \<le> c" "c < 0x10000" "scalar_value c"
  shows "toString (utf8_encode_cp c @ rest) = c # toString rest"
proof -
  define q2 q1 r where "q2 = c div 4096" and "q1 = c div 64 mod 64" and "r = c mod 64"
  have c: "c = q2 * 4096 + q1 * 64 + r" using split3 [of c] by (simp add: q2_def q1_def r_def)
  have r: "r < 64" and q1: "q1 < 64" by (simp_all add: r_def q1_def)
  have q2: "q2 < 16" using c assms by linarith
  have lo: "q2 = 0 \<Longrightarrow> 32 \<le> q1" using c r assms by linarith
  have hi: "q2 = 13 \<Longrightarrow> q1 < 32" using c r q1 assms unfolding scalar_value_def by linarith
  have e: "utf8_encode_cp c = [of_nat (0xE0 + q2), of_nat (0x80 + q1), of_nat (0x80 + r)]"
    using assms by (simp add: utf8_encode_cp_def q2_def q1_def r_def)
  have ub: "unat (of_nat (0xE0 + q2) :: byte) = 0xE0 + q2"
    using q2 by (intro unat_byte) linarith
  have u1: "unat (of_nat (0x80 + q1) :: byte) = 0x80 + q1"
    using q1 by (intro unat_byte) linarith
  have u2: "unat (of_nat (0x80 + r) :: byte) = 0x80 + r"
    using r by (intro unat_byte) linarith
  have mb: "(0xE0 + q2) mod 16 = q2" using q2 by (intro mod_add_small) simp_all
  have m1: "(0x80 + q1) mod 64 = q1" using q1 by (intro mod_add_small) simp_all
  have m2: "(0x80 + r) mod 64 = r" using r by (intro mod_add_small) simp_all
  have "toString (of_nat (0xE0 + q2) # of_nat (0x80 + q1) # of_nat (0x80 + r) # rest)
        = (unat (of_nat (0xE0 + q2) :: byte) mod 16 * 4096
           + unat (of_nat (0x80 + q1) :: byte) mod 64 * 64
           + unat (of_nat (0x80 + r) :: byte) mod 64) # toString rest"
    by (rule dec3) (simp_all only: ub u1 u2 cont_def, use q2 q1 r lo hi in auto)
  then show ?thesis by (simp only: e ub u1 u2 mb m1 m2 c [symmetric] append_Cons append_Nil)
qed

lemma enc4:
  assumes "0x10000 \<le> c" "c < 0x110000"
  shows "toString (utf8_encode_cp c @ rest) = c # toString rest"
proof -
  define q3 q2 q1 r where "q3 = c div 262144" and "q2 = c div 4096 mod 64"
    and "q1 = c div 64 mod 64" and "r = c mod 64"
  have c: "c = q3 * 262144 + q2 * 4096 + q1 * 64 + r"
    using split4 [of c] by (simp add: q3_def q2_def q1_def r_def)
  have r: "r < 64" and q1: "q1 < 64" and q2: "q2 < 64" by (simp_all add: r_def q1_def q2_def)
  have q3: "q3 \<le> 4" using c assms by linarith
  have lo: "q3 = 0 \<Longrightarrow> 16 \<le> q2" using c r q1 assms by linarith
  have hi: "q3 = 4 \<Longrightarrow> q2 < 16" using c r q1 assms by linarith
  have sv: "scalar_value c" using assms by (simp add: scalar_value_def)
  have e: "utf8_encode_cp c
           = [of_nat (0xF0 + q3), of_nat (0x80 + q2), of_nat (0x80 + q1), of_nat (0x80 + r)]"
    using assms sv by (simp add: utf8_encode_cp_def q3_def q2_def q1_def r_def)
  have ub: "unat (of_nat (0xF0 + q3) :: byte) = 0xF0 + q3"
    using q3 by (intro unat_byte) linarith
  have u1: "unat (of_nat (0x80 + q2) :: byte) = 0x80 + q2"
    using q2 by (intro unat_byte) linarith
  have u2: "unat (of_nat (0x80 + q1) :: byte) = 0x80 + q1"
    using q1 by (intro unat_byte) linarith
  have u3: "unat (of_nat (0x80 + r) :: byte) = 0x80 + r"
    using r by (intro unat_byte) linarith
  have mb: "(0xF0 + q3) mod 8 = q3" using q3 by (intro mod_add_small) simp_all
  have m1: "(0x80 + q2) mod 64 = q2" using q2 by (intro mod_add_small) simp_all
  have m2: "(0x80 + q1) mod 64 = q1" using q1 by (intro mod_add_small) simp_all
  have m3: "(0x80 + r) mod 64 = r" using r by (intro mod_add_small) simp_all
  have "toString (of_nat (0xF0 + q3) # of_nat (0x80 + q2) # of_nat (0x80 + q1)
                    # of_nat (0x80 + r) # rest)
        = (unat (of_nat (0xF0 + q3) :: byte) mod 8 * 262144
           + unat (of_nat (0x80 + q2) :: byte) mod 64 * 4096
           + unat (of_nat (0x80 + q1) :: byte) mod 64 * 64
           + unat (of_nat (0x80 + r) :: byte) mod 64) # toString rest"
    by (rule dec4) (simp_all only: ub u1 u2 u3 cont_def, use q3 q2 q1 r lo hi in auto)
  then show ?thesis by (simp only: e ub u1 u2 u3 mb m1 m2 m3 c [symmetric] append_Cons append_Nil)
qed

lemma toString_encode_cp:
  assumes "scalar_value c"
  shows "toString (utf8_encode_cp c @ rest) = c # toString rest"
proof -
  consider "c < 0x80" | "0x80 \<le> c \<and> c < 0x800" | "0x800 \<le> c \<and> c < 0x10000"
    | "0x10000 \<le> c \<and> c < 0x110000"
    using assms unfolding scalar_value_def by linarith
  then show ?thesis
    using assms by cases (simp_all add: enc1 enc2 enc3 enc4)
qed

lemma toString_Buffer_from:
  "list_all scalar_value s \<Longrightarrow> toString (Buffer_from s) = s"
proof (induction s)
  case Nil
  then show ?case by (simp add: Buffer_from_def)
next
  case (Cons c s)
  then show ?case
    using toString_encode_cp [of c "Buffer_from s"] by (simp add: Buffer_from_def)
qed

section \<open>UTF-8: only ASCII bytes decode to ASCII\<close>

lemma mod_offset: "a mod m = 0 \<Longrightarrow> a \<le> b \<Longrightarrow> b < a + m \<Longrightarrow> b mod m = b - (a::nat)"
  using mod_add_small [of a m "b - a"] by simp

lemma cp2_ge:
  assumes "0xC2 \<le> (b::nat)" "b \<le> 0xDF"
  shows "0x80 \<le> b mod 32 * 64 + x"
proof -
  have "b mod 32 = b - 192" using assms by (intro mod_offset) simp_all
  then show ?thesis using assms by simp
qed

lemma cp3_ge:
  assumes "0xE0 \<le> (b::nat)" "b \<le> 0xEF" "(if b = 0xE0 then 0xA0 else 0x80) \<le> c1" "c1 \<le> 0xBF"
  shows "0x80 \<le> b mod 16 * 4096 + c1 mod 64 * 64 + x"
proof -
  have b: "b mod 16 = b - 224" using assms by (intro mod_offset) simp_all
  have c: "c1 mod 64 = c1 - 128" using assms by (intro mod_offset) (simp_all split: if_splits)
  show ?thesis unfolding b c using assms by (simp split: if_splits)
qed

lemma cp4_ge:
  assumes "0xF0 \<le> (b::nat)" "b \<le> 0xF4" "(if b = 0xF0 then 0x90 else 0x80) \<le> c1" "c1 \<le> 0xBF"
  shows "0x80 \<le> b mod 8 * 262144 + c1 mod 64 * 4096 + x"
proof -
  have b: "b mod 8 = b - 240" using assms by (intro mod_offset) simp_all
  have c: "c1 mod 64 = c1 - 128" using assms by (intro mod_offset) (simp_all split: if_splits)
  show ?thesis unfolding b c using assms by (simp split: if_splits)
qed

lemma cp3_cont:
  "0xE0 \<le> unat b \<Longrightarrow> unat b \<le> 0xEF \<Longrightarrow>
   cont (if unat b = 0xE0 then 0xA0 else 0x80) (if unat b = 0xED then 0x9F else 0xBF) c1 \<Longrightarrow>
   0x80 \<le> unat b mod 16 * 4096 + unat c1 mod 64 * 64 + x"
  by (rule cp3_ge) (auto simp add: cont_def split: if_splits)

lemma cp3_E0:
  "cont 0xA0 0xBF c1 \<Longrightarrow> 0x80 \<le> unat c1 mod 64 * 64 + x"
  using cp3_ge [of "0xE0" "unat c1" x] by (simp add: cont_def)

lemma cp4_F0:
  "cont 0x90 0xBF c1 \<Longrightarrow> 0x80 \<le> unat c1 mod 64 * 4096 + x"
  using cp4_ge [of "0xF0" "unat c1" x] by (simp add: cont_def)

lemma cp4_hi:
  assumes "0xF1 \<le> unat b" "unat b \<le> 0xF4"
  shows "0x80 \<le> unat b mod 8 * 262144 + x"
proof -
  have "unat b mod 8 = unat b - 240" using assms by (intro mod_offset) simp_all
  then show ?thesis using assms by simp
qed

lemma toString_head_non_ascii:
  assumes "0x80 \<le> unat b"
  shows "\<exists>c cs. toString (b # bs) = c # cs \<and> 0x80 \<le> c"
proof -
  consider (two) "0xC2 \<le> unat b \<and> unat b \<le> 0xDF"
    | (three) "0xE0 \<le> unat b \<and> unat b \<le> 0xEF"
    | (four) "0xF0 \<le> unat b \<and> unat b \<le> 0xF4"
    | (bad) "\<not> (0xC2 \<le> unat b \<and> unat b \<le> 0xDF) \<and> \<not> (0xE0 \<le> unat b \<and> unat b \<le> 0xEF)
             \<and> \<not> (0xF0 \<le> unat b \<and> unat b \<le> 0xF4)"
    by blast
  then show ?thesis
  proof cases
    case two
    then show ?thesis
      using assms cp2_ge [of "unat b"] by (simp add: cont_def split: list.splits)
  next
    case three
    then show ?thesis
      using assms by (simp add: cp3_cont cp3_E0 split: list.splits)
  next
    case four
    show ?thesis
    proof (cases "unat b = 0xF0")
      case True
      then show ?thesis by (simp add: cp4_F0 add.assoc split: list.splits)
    next
      case False
      then have "0xF1 \<le> unat b" "unat b \<le> 0xF4" using four by simp_all
      then show ?thesis using four by (simp add: cp4_hi add.assoc split: list.splits)
    qed
  next
    case bad
    have n1: "\<not> unat b < 0x80" using assms by simp
    have n2: "\<not> (0xC2 \<le> unat b \<and> unat b \<le> 0xDF)"
      and n3: "\<not> (0xE0 \<le> unat b \<and> unat b \<le> 0xEF)"
      and n4: "\<not> (0xF0 \<le> unat b \<and> unat b \<le> 0xF4)"
      using bad by blast+
    have ts: "toString (b # bs) = 0xFFFD # toString bs"
      by (simp only: toString.simps n1 n2 n3 n4 if_False)
    show ?thesis unfolding ts by simp
  qed
qed

lemma toString_ascii:
  "\<forall>c \<in> set (toString bs). c < 0x80 \<Longrightarrow> toString bs = map unat bs"
proof (induction bs)
  case Nil
  then show ?case by simp
next
  case (Cons b bs)
  have b: "unat b < 0x80"
  proof (rule ccontr)
    assume "\<not> unat b < 0x80"
    then obtain c cs where eq: "toString (b # bs) = c # cs" and ge: "0x80 \<le> c"
      using toString_head_non_ascii [of b bs] by auto
    have "c < 0x80" using Cons.prems unfolding eq by simp
    then show False using ge by simp
  qed
  then have h: "toString (b # bs) = unat b # toString bs" by simp
  have "\<forall>c \<in> set (toString bs). c < 0x80" using Cons.prems unfolding h by simp
  then have "toString bs = map unat bs" by (rule Cons.IH)
  then show ?case unfolding h by simp
qed

lemma unat_inj_list: "map unat (bs :: byte list) = map unat cs \<Longrightarrow> bs = cs"
proof -
  have "inj (unat :: byte \<Rightarrow> nat)" by (simp add: inj_on_def word_unat_eq_iff)
  then show "map unat bs = map unat cs \<Longrightarrow> bs = cs" by (simp add: inj_map_eq_map)
qed

lemma Buffer_from_HEADER: "Buffer_from HEADER = [66, 65, 76, 76, 79, 84, 32, 32]"
  by (simp add: HEADER_def Buffer_from_def utf8_encode_cp_def)

lemma unat_Buffer_from_HEADER: "map unat (Buffer_from HEADER) = HEADER"
  by (simp add: Buffer_from_HEADER) (simp add: HEADER_def)

lemma toString_eq_HEADER:
  "toString bs = HEADER \<longleftrightarrow> bs = Buffer_from HEADER"
proof
  assume h: "toString bs = HEADER"
  have "\<forall>c \<in> set (toString bs). c < 0x80"
    unfolding h by (simp add: HEADER_def)
  then have "toString bs = map unat bs" by (rule toString_ascii)
  then have "map unat bs = map unat (Buffer_from HEADER)"
    using h by (simp only: unat_Buffer_from_HEADER)
  then show "bs = Buffer_from HEADER" by (rule unat_inj_list)
next
  assume "bs = Buffer_from HEADER"
  then show "toString bs = HEADER"
    by (simp add: Buffer_from_HEADER) (simp add: HEADER_def)
qed

section \<open>The hash input, written out\<close>

lemma VoterCard_computeHash_eq:
  "VoterCard_computeHash c buffer
     = buffer @ validator_address c @ address c @ le_bytes 8 (expires c)"
  by (simp add: VoterCard_computeHash_def PublicKey_computeHash_def writeBuffer_def
      writeJSBigIntLE_def Buffer_alloc_def)

lemma BallotData_computeHash_eq:
  "BallotData_computeHash b buffer =
     (if sequence b < 2 ^ 32
      then Inr (buffer @ Buffer_from (proposal_id b) @ ballot b
                @ validator_address (card b) @ address (card b) @ le_bytes 8 (expires (card b))
                @ le_bytes 4 (sequence b))
      else Inl RangeError)"
  by (simp add: BallotData_computeHash_def writeBuffer_def writeUInt32LE_def
      VoterCard_computeHash_eq)

lemma Buffer_from_append: "Buffer_from (s @ t) = Buffer_from s @ Buffer_from t"
  by (simp add: Buffer_from_def)

section \<open>Readers in sequence\<close>

lemma decodes_read_then:
  assumes "decodes P e v" and "decodes (Q v) e' w"
  shows "decodes (read_then P Q) (e @ e') w"
  using assms by (simp add: decodes_def read_then_def)

lemma strict_prefix_append_cases:
  assumes "strict_prefix p (e @ e')"
  obtains "strict_prefix p e" | p' where "p = e @ p'" and "strict_prefix p' e'"
proof -
  from assms have "prefix p (e @ e')" and ne: "p \<noteq> e @ e'" by (simp_all add: strict_prefix_def)
  then consider "prefix p e" | us where "prefix us e'" and "p = e @ us"
    by (auto simp add: prefix_append)
  then show thesis
  proof cases
    case 1
    show thesis
    proof (cases "p = e")
      case True
      then have "p = e @ []" by simp
      moreover have "strict_prefix [] e'" using ne True by (cases e') simp_all
      ultimately show thesis using that(2) by blast
    next
      case False
      then show thesis using 1 that(1) by (simp add: strict_prefix_def)
    qed
  next
    case 2
    then have "strict_prefix us e'" using ne by (auto simp add: strict_prefix_def)
    then show thesis using 2 that(2) by blast
  qed
qed

lemma underruns_read_then:
  assumes "decodes P e v" and "underruns P e" and "underruns (Q v) e'"
  shows "underruns (read_then P Q) (e @ e')"
  unfolding underruns_def
proof (intro allI impI)
  fix p
  assume "strict_prefix p (e @ e')"
  then show "read_then P Q p = Inl UnderrunError"
  proof (cases rule: strict_prefix_append_cases)
    case 1
    then have "P p = Inl UnderrunError" using assms(2) by (simp add: underruns_def)
    then show ?thesis by (simp add: read_then_def)
  next
    case (2 p')
    then have "P p = Inr (v, p')" using assms(1) by (simp add: decodes_def)
    moreover have "Q v p' = Inl UnderrunError" using 2 assms(3) by (simp add: underruns_def)
    ultimately show ?thesis by (simp add: read_then_def)
  qed
qed

lemma decodes_readBuffer: "length bs = n \<Longrightarrow> decodes (\<lambda>b. readBuffer b n) bs bs"
  by (simp add: decodes_def readBuffer_def)

lemma underruns_readBuffer: "length bs = n \<Longrightarrow> underruns (\<lambda>b. readBuffer b n) bs"
  by (auto simp add: underruns_def readBuffer_def dest: prefix_length_less)

lemma decodes_return: "decodes (\<lambda>b. Inr (v, b)) [] v"
  by (simp add: decodes_def)

lemma underruns_return: "underruns P []"
  by (simp add: underruns_def)

lemma decodes_toNumber:
  "VarInt_roundtrip vi \<Longrightarrow> n < 2 ^ 32 \<Longrightarrow> decodes (toNumber vi) (fromNumber vi n) n"
  by (simp add: VarInt_roundtrip_def decodes_def)

lemma decodes_toJSBI:
  "VarInt_roundtrip vi \<Longrightarrow> n < 2 ^ 64 \<Longrightarrow> decodes (toJSBI vi) (fromJSBI vi n) n"
  by (simp add: VarInt_roundtrip_def decodes_def)

lemma underruns_toNumber:
  "VarInt_underrun vi \<Longrightarrow> n < 2 ^ 32 \<Longrightarrow> underruns (toNumber vi) (fromNumber vi n)"
  by (simp add: VarInt_underrun_def underruns_def)

lemma underruns_toJSBI:
  "VarInt_underrun vi \<Longrightarrow> n < 2 ^ 64 \<Longrightarrow> underruns (toJSBI vi) (fromJSBI vi n)"
  by (simp add: VarInt_underrun_def underruns_def)

lemma VoterCard_deserialize_chain:
  "VoterCard_deserialize vi =
     read_then (\<lambda>b. readBuffer b SIZE_OF_PUBLIC_KEY) (\<lambda>va.
     read_then (\<lambda>b. readBuffer b SIZE_OF_PUBLIC_KEY) (\<lambda>a.
     read_then (toJSBI vi) (\<lambda>e.
     read_then (\<lambda>b. readBuffer b Signature_Width) (\<lambda>sg b.
       Inr (new_VoterCard va a e (Some sg), b)))))"
  by (rule ext) (simp add: VoterCard_deserialize_def read_then_def split: sum.splits prod.splits)

lemma VoterCard_serialize_eq:
  "VoterCard_serialize vi c buffer =
     buffer @ validator_address c @ address c @ fromJSBI vi (expires c) @ VoterCard.signature c"
  by (simp add: VoterCard_serialize_def writeBuffer_def)

lemma new_VoterCard_fields:
  "new_VoterCard (validator_address c) (address c) (expires c) (Some (VoterCard.signature c)) = c"
  by (simp add: new_VoterCard_def)

lemma decodes_VoterCard:
  assumes "VarInt_roundtrip vi" and "valid_VoterCard c"
  shows "decodes (VoterCard_deserialize vi) (VoterCard_serialize vi c []) c"
proof -
  have v: "length (validator_address c) = SIZE_OF_PUBLIC_KEY"
    "length (address c) = SIZE_OF_PUBLIC_KEY" "expires c < 2 ^ 64"
    "length (VoterCard.signature c) = Signature_Width"
    using assms(2) by (simp_all add: valid_VoterCard_def)
  have "decodes (VoterCard_deserialize vi)
          (validator_address c @ address c @ fromJSBI vi (expires c) @ VoterCard.signature c @ [])
          (new_VoterCard (validator_address c) (address c) (expires c)
             (Some (VoterCard.signature c)))"
    unfolding VoterCard_deserialize_chain
    apply (rule decodes_read_then, rule decodes_readBuffer, rule v(1))
    apply (rule decodes_read_then, rule decodes_readBuffer, rule v(2))
    apply (rule decodes_read_then, rule decodes_toJSBI, rule assms(1), rule v(3))
    apply (rule decodes_read_then, rule decodes_readBuffer, rule v(4))
    apply (rule decodes_return)
    done
  then show ?thesis by (simp add: VoterCard_serialize_eq new_VoterCard_fields)
qed

lemma underruns_VoterCard:
  assumes "VarInt_roundtrip vi" and "VarInt_underrun vi" and "valid_VoterCard c"
  shows "underruns (VoterCard_deserialize vi) (VoterCard_serialize vi c [])"
proof -
  have v: "length (validator_address c) = SIZE_OF_PUBLIC_KEY"
    "length (address c) = SIZE_OF_PUBLIC_KEY" "expires c < 2 ^ 64"
    "length (VoterCard.signature c) = Signature_Width"
    using assms(3) by (simp_all add: valid_VoterCard_def)
  have "underruns (VoterCard_deserialize vi)
          (validator_address c @ address c @ fromJSBI vi (expires c) @ VoterCard.signature c @ [])"
    unfolding VoterCard_deserialize_chain
    apply (rule underruns_read_then, rule decodes_readBuffer, rule v(1),
           rule underruns_readBuffer, rule v(1))
    apply (rule underruns_read_then, rule decodes_readBuffer, rule v(2),
           rule underruns_readBuffer, rule v(2))
    apply (rule underruns_read_then, rule decodes_toJSBI, rule assms(1), rule v(3),
           rule underruns_toJSBI, rule assms(2), rule v(3))
    apply (rule underruns_read_then, rule decodes_readBuffer, rule v(4),
           rule underruns_readBuffer, rule v(4))
    apply (rule underruns_return)
    done
  then show ?thesis by (simp add: VoterCard_serialize_eq)
qed


lemma BallotData_deserialize_chain:
  "BallotData_deserialize vi =
     read_then (toNumber vi) (\<lambda>len.
     read_then (\<lambda>b. readBuffer b len) (\<lambda>header.
     if toString header \<noteq> HEADER then (\<lambda>b. Inl FormatError)
     else
     read_then (toNumber vi) (\<lambda>len.
     read_then (\<lambda>b. readBuffer b len) (\<lambda>temp.
     read_then (toNumber vi) (\<lambda>len.
     read_then (\<lambda>b. readBuffer b len) (\<lambda>bl.
     read_then (VoterCard_deserialize vi) (\<lambda>cd.
     read_then (toNumber vi) (\<lambda>sq.
     read_then (\<lambda>b. readBuffer b Signature_Width) (\<lambda>sg b.
       Inr (new_BallotData (toString temp) bl cd sq (Some sg), b))))))))))"
  by (rule ext) (simp add: BallotData_deserialize_def read_then_def split: sum.splits prod.splits)

lemma BallotData_serialize_eq:
  "BallotData_serialize vi b buffer =
     buffer @ fromNumber vi (length (Buffer_from HEADER)) @ Buffer_from HEADER
     @ fromNumber vi (length (Buffer_from (proposal_id b))) @ Buffer_from (proposal_id b)
     @ fromNumber vi (length (ballot b)) @ ballot b
     @ VoterCard_serialize vi (card b) []
     @ fromNumber vi (sequence b) @ signature b"
  by (simp add: BallotData_serialize_def writeBuffer_def VoterCard_serialize_eq Let_def)

lemma new_BallotData_fields:
  "new_BallotData (proposal_id x) (ballot x) (card x) (sequence x) (Some (signature x)) = x"
  by (simp add: new_BallotData_def)

lemma toString_HEADER: "toString (Buffer_from HEADER) = HEADER"
  by (simp add: toString_eq_HEADER)

lemma length_HEADER: "length (Buffer_from HEADER) < 2 ^ 32"
  by (simp add: Buffer_from_HEADER)

lemma decodes_BallotData:
  assumes "VarInt_roundtrip vi" and "valid_BallotData x"
  shows "decodes (BallotData_deserialize vi) (BallotData_serialize vi x []) x"
proof -
  have v: "length (Buffer_from (proposal_id x)) < 2 ^ 32" "length (ballot x) < 2 ^ 32"
    "valid_VoterCard (card x)" "sequence x < 2 ^ 32" "length (signature x) = Signature_Width"
    and s: "toString (Buffer_from (proposal_id x)) = proposal_id x"
    using assms(2) by (simp_all add: valid_BallotData_def toString_Buffer_from)
  have "decodes (BallotData_deserialize vi)
          (fromNumber vi (length (Buffer_from HEADER)) @ Buffer_from HEADER
           @ fromNumber vi (length (Buffer_from (proposal_id x))) @ Buffer_from (proposal_id x)
           @ fromNumber vi (length (ballot x)) @ ballot x
           @ VoterCard_serialize vi (card x) []
           @ fromNumber vi (sequence x) @ signature x @ [])
          (new_BallotData (toString (Buffer_from (proposal_id x))) (ballot x) (card x)
             (sequence x) (Some (signature x)))"
    unfolding BallotData_deserialize_chain
    apply (rule decodes_read_then, rule decodes_toNumber, rule assms(1), rule length_HEADER)
    apply (rule decodes_read_then, rule decodes_readBuffer, rule refl)
    apply (simp only: toString_HEADER simp_thms if_False)
    apply (rule decodes_read_then, rule decodes_toNumber, rule assms(1), rule v(1))
    apply (rule decodes_read_then, rule decodes_readBuffer, rule refl)
    apply (rule decodes_read_then, rule decodes_toNumber, rule assms(1), rule v(2))
    apply (rule decodes_read_then, rule decodes_readBuffer, rule refl)
    apply (rule decodes_read_then, rule decodes_VoterCard, rule assms(1), rule v(3))
    apply (rule decodes_read_then, rule decodes_toNumber, rule assms(1), rule v(4))
    apply (rule decodes_read_then, rule decodes_readBuffer, rule v(5))
    apply (rule decodes_return)
    done
  then show ?thesis by (simp add: BallotData_serialize_eq s new_BallotData_fields)
qed

lemma underruns_BallotData:
  assumes "VarInt_roundtrip vi" and "VarInt_underrun vi" and "valid_BallotData x"
  shows "underruns (BallotData_deserialize vi) (BallotData_serialize vi x [])"
proof -
  have v: "length (Buffer_from (proposal_id x)) < 2 ^ 32" "length (ballot x) < 2 ^ 32"
    "valid_VoterCard (card x)" "sequence x < 2 ^ 32" "length (signature x) = Signature_Width"
    using assms(3) by (simp_all add: valid_BallotData_def)
  have "underruns (BallotData_deserialize vi)
          (fromNumber vi (length (Buffer_from HEADER)) @ Buffer_from HEADER
           @ fromNumber vi (length (Buffer_from (proposal_id x))) @ Buffer_from (proposal_id x)
           @ fromNumber vi (length (ballot x)) @ ballot x
           @ VoterCard_serialize vi (card x) []
           @ fromNumber vi (sequence x) @ signature x @ [])"
    unfolding BallotData_deserialize_chain
    apply (rule underruns_read_then, rule decodes_toNumber, rule assms(1), rule length_HEADER,
           rule underruns_toNumber, rule assms(2), rule length_HEADER)
    apply (rule underruns_read_then, rule decodes_readBuffer, rule refl,
           rule underruns_readBuffer, rule refl)
    apply (simp only: toString_HEADER simp_thms if_False)
    apply (rule underruns_read_then, rule decodes_toNumber, rule assms(1), rule v(1),
           rule underruns_toNumber, rule assms(2), rule v(1))
    apply (rule underruns_read_then, rule decodes_readBuffer, rule refl,
           rule underruns_readBuffer, rule refl)
    apply (rule underruns_read_then, rule decodes_toNumber, rule assms(1), rule v(2),
           rule underruns_toNumber, rule assms(2), rule v(2))
    apply (rule underruns_read_then, rule decodes_readBuffer, rule refl,
           rule underruns_readBuffer, rule refl)
    apply (rule underruns_read_then, rule decodes_VoterCard, rule assms(1), rule v(3),
           rule underruns_VoterCard, rule assms(1), rule assms(2), rule v(3))
    apply (rule underruns_read_then, rule decodes_toNumber, rule assms(1), rule v(4),
           rule underruns_toNumber, rule assms(2), rule v(4))
    apply (rule underruns_read_then, rule decodes_readBuffer, rule v(5),
           rule underruns_readBuffer, rule v(5))
    apply (rule underruns_return)
    done
  then show ?thesis by (simp add: BallotData_serialize_eq)
qed

section \<open>The compact codec meets the contract\<close>

lemma compact_decode_encode:
  assumes "n < 2 ^ 64"
  shows "compact_decode (compact_encode n @ rest) = Inr (n, rest)"
proof -
  consider (a) "n \<le> 0xFC" | (b) "0xFC < n" "n \<le> 0xFFFF" | (c) "0xFFFF < n" "n \<le> 0xFFFFFFFF"
    | (d) "0xFFFFFFFF < n"
    by linarith
  then show ?thesis
  proof cases
    case a
    then have "unat (of_nat n :: byte) = n" by (intro unat_byte) simp
    then show ?thesis using a by (simp add: compact_encode_def compact_decode_def)
  next
    case b
    then have e: "compact_encode n = 0xFD # le_bytes 2 n" by (simp add: compact_encode_def)
    have "le_nat (le_bytes 2 n) = n" using b by (intro le_nat_le_bytes_id) simp
    then show ?thesis unfolding e by (simp add: compact_decode_def)
  next
    case c
    then have e: "compact_encode n = 0xFE # le_bytes 4 n" by (simp add: compact_encode_def)
    have "le_nat (le_bytes 4 n) = n" using c by (intro le_nat_le_bytes_id) simp
    then show ?thesis unfolding e by (simp add: compact_decode_def)
  next
    case d
    then have e: "compact_encode n = 0xFF # le_bytes 8 n" by (simp add: compact_encode_def)
    have "le_nat (le_bytes 8 n) = n" using assms by (intro le_nat_le_bytes_id) simp
    then show ?thesis unfolding e by (simp add: compact_decode_def)
  qed
qed

lemma compact_decode_prefix:
  assumes "strict_prefix p (compact_encode n)"
  shows "compact_decode p = Inl UnderrunError"
proof (cases p)
  case Nil
  then show ?thesis by (simp add: compact_decode_def)
next
  case (Cons t p')
  then have big: "0xFC < n" using assms by (auto simp add: compact_encode_def split: if_splits)
  then consider (b) "n \<le> 0xFFFF" | (c) "0xFFFF < n" "n \<le> 0xFFFFFFFF" | (d) "0xFFFFFFFF < n"
    by linarith
  then show ?thesis
  proof cases
    case b
    then have "compact_encode n = 0xFD # le_bytes 2 n" using big by (simp add: compact_encode_def)
    then have "t = 0xFD" "length p' < 2"
      using assms Cons by (auto dest: prefix_length_less)
    then show ?thesis using Cons by (simp add: compact_decode_def)
  next
    case c
    then have "compact_encode n = 0xFE # le_bytes 4 n" by (simp add: compact_encode_def)
    then have "t = 0xFE" "length p' < 4"
      using assms Cons by (auto dest: prefix_length_less)
    then show ?thesis using Cons by (simp add: compact_decode_def)
  next
    case d
    then have "compact_encode n = 0xFF # le_bytes 8 n" by (simp add: compact_encode_def)
    then have "t = 0xFF" "length p' < 8"
      using assms Cons by (auto dest: prefix_length_less)
    then show ?thesis using Cons by (simp add: compact_decode_def)
  qed
qed

lemma compact_VarInt_roundtrip: "VarInt_roundtrip compact_VarInt"
proof -
  have "n < 2 ^ 32 \<Longrightarrow> n < 2 ^ 64" for n :: nat
    by (rule less_le_trans [of _ "2 ^ 32"]) simp_all
  then show ?thesis
    by (simp add: VarInt_roundtrip_def compact_VarInt_def compact_decode_encode)
qed

lemma compact_VarInt_underrun: "VarInt_underrun compact_VarInt"
  by (simp add: VarInt_underrun_def compact_VarInt_def compact_decode_prefix)

section \<open>Deserialization, field by field\<close>

lemma toNumber_throws:
  "VarInt_throws_underrun vi \<Longrightarrow> toNumber vi buffer = Inl e \<Longrightarrow> e = UnderrunError"
  by (simp add: VarInt_throws_underrun_def)

lemma toJSBI_throws:
  "VarInt_throws_underrun vi \<Longrightarrow> toJSBI vi buffer = Inl e \<Longrightarrow> e = UnderrunError"
  by (simp add: VarInt_throws_underrun_def)

lemma compact_decode_throws: "compact_decode buffer = Inl e \<Longrightarrow> e = UnderrunError"
  by (auto simp add: compact_decode_def Let_def split: list.splits if_splits)

lemma compact_VarInt_throws_underrun: "VarInt_throws_underrun compact_VarInt"
  using compact_decode_throws by (simp add: VarInt_throws_underrun_def compact_VarInt_def)

lemma VoterCard_deserialize_walk:
  "(length buffer < 64 \<longrightarrow> VoterCard_deserialize vi buffer = Inl UnderrunError)
   \<and> (64 \<le> length buffer \<longrightarrow>
        (toJSBI vi (drop 64 buffer) = Inl e \<longrightarrow> VoterCard_deserialize vi buffer = Inl e)
      \<and> (toJSBI vi (drop 64 buffer) = Inr (ex, r) \<longrightarrow>
           (length r < 64 \<longrightarrow> VoterCard_deserialize vi buffer = Inl UnderrunError)
         \<and> (64 \<le> length r \<longrightarrow>
              VoterCard_deserialize vi buffer
                = Inr (\<lparr>validator_address = take 32 buffer, address = take 32 (drop 32 buffer),
                        expires = ex, signature = take 64 r\<rparr>, drop 64 r))))"
  by (auto simp add: VoterCard_deserialize_def readBuffer_def SIZE_OF_PUBLIC_KEY_def
      Signature_Width_def new_VoterCard_def)

lemma BallotData_deserialize_walk:
  "(toNumber vi buffer = Inl e \<longrightarrow> BallotData_deserialize vi buffer = Inl e)
   \<and> (toNumber vi buffer = Inr (n0, r0) \<longrightarrow>
     (length r0 < n0 \<longrightarrow> BallotData_deserialize vi buffer = Inl UnderrunError)
   \<and> (n0 \<le> length r0 \<and> take n0 r0 = Buffer_from HEADER \<longrightarrow>
     (toNumber vi (drop n0 r0) = Inl e \<longrightarrow> BallotData_deserialize vi buffer = Inl e)
   \<and> (toNumber vi (drop n0 r0) = Inr (n1, r1) \<longrightarrow>
     (length r1 < n1 \<longrightarrow> BallotData_deserialize vi buffer = Inl UnderrunError)
   \<and> (n1 \<le> length r1 \<longrightarrow>
     (toNumber vi (drop n1 r1) = Inl e \<longrightarrow> BallotData_deserialize vi buffer = Inl e)
   \<and> (toNumber vi (drop n1 r1) = Inr (n2, r2) \<longrightarrow>
     (length r2 < n2 \<longrightarrow> BallotData_deserialize vi buffer = Inl UnderrunError)
   \<and> (n2 \<le> length r2 \<longrightarrow>
     (VoterCard_deserialize vi (drop n2 r2) = Inl e \<longrightarrow> BallotData_deserialize vi buffer = Inl e)
   \<and> (VoterCard_deserialize vi (drop n2 r2) = Inr (c, r3) \<longrightarrow>
     (toNumber vi r3 = Inl e \<longrightarrow> BallotData_deserialize vi buffer = Inl e)
   \<and> (toNumber vi r3 = Inr (sq, r4) \<longrightarrow>
     (length r4 < 64 \<longrightarrow> BallotData_deserialize vi buffer = Inl UnderrunError)
   \<and> (64 \<le> length r4 \<longrightarrow>
        BallotData_deserialize vi buffer
          = Inr (\<lparr>proposal_id = toString (take n1 r1), ballot = take n2 r2, card = c,
                  sequence = sq, signature = take 64 r4\<rparr>, drop 64 r4))))))))))"
  by (auto simp add: BallotData_deserialize_def readBuffer_def Signature_Width_def
      new_BallotData_def toString_eq_HEADER)

lemma VoterCard_deserialize_Inr:
  assumes "VoterCard_deserialize vi buffer = Inr (c, rest)"
  shows "64 \<le> length buffer \<and> validator_address c = take 32 buffer
       \<and> address c = take 32 (drop 32 buffer)
       \<and> (\<exists>r. toJSBI vi (drop 64 buffer) = Inr (expires c, r) \<and> 64 \<le> length r
               \<and> VoterCard.signature c = take 64 r \<and> rest = drop 64 r)"
  using assms
  by (auto simp add: VoterCard_deserialize_def readBuffer_def SIZE_OF_PUBLIC_KEY_def
      Signature_Width_def new_VoterCard_def split: sum.splits prod.splits if_splits)

lemma VoterCard_deserialize_Inl:
  assumes "VarInt_throws_underrun vi" and "VoterCard_deserialize vi buffer = Inl e"
  shows "e = UnderrunError"
  using assms(2) toJSBI_throws [OF assms(1)]
  by (auto simp add: VoterCard_deserialize_def readBuffer_def
      split: sum.splits prod.splits if_splits)

lemma BallotData_deserialize_Inr:
  assumes "BallotData_deserialize vi buffer = Inr (x, rest)"
  shows "\<exists>n0 r0 n1 r1 n2 r2 r3 r4.
           toNumber vi buffer = Inr (n0, r0) \<and> n0 \<le> length r0 \<and> take n0 r0 = Buffer_from HEADER
         \<and> toNumber vi (drop n0 r0) = Inr (n1, r1) \<and> n1 \<le> length r1
         \<and> proposal_id x = toString (take n1 r1)
         \<and> toNumber vi (drop n1 r1) = Inr (n2, r2) \<and> n2 \<le> length r2
         \<and> ballot x = take n2 r2
         \<and> VoterCard_deserialize vi (drop n2 r2) = Inr (card x, r3)
         \<and> toNumber vi r3 = Inr (sequence x, r4) \<and> 64 \<le> length r4
         \<and> signature x = take 64 r4 \<and> rest = drop 64 r4"
  using assms
  by (auto simp add: BallotData_deserialize_def readBuffer_def Signature_Width_def
      new_BallotData_def toString_eq_HEADER split: sum.splits prod.splits if_splits)

lemma BallotData_deserialize_Inl:
  assumes "VarInt_throws_underrun vi" and "BallotData_deserialize vi buffer = Inl e"
  shows "e = UnderrunError
       \<or> (e = FormatError \<and> (\<exists>n r. toNumber vi buffer = Inr (n, r) \<and> n \<le> length r
                                    \<and> take n r \<noteq> Buffer_from HEADER))"
  using assms(2) toNumber_throws [OF assms(1)] VoterCard_deserialize_Inl [OF assms(1)]
  by (auto simp add: BallotData_deserialize_def readBuffer_def toString_eq_HEADER
      split: sum.splits prod.splits if_splits)

section \<open>A sample ballot\<close>

lemma sample_valid:
  "valid_BallotData (new_BallotData [0x50] [7]
        (new_VoterCard (replicate 32 1) (replicate 32 2) 258 (Some (replicate 64 3))) 3
        (Some (replicate 64 5)))"
  by (simp add: valid_BallotData_def valid_VoterCard_def new_BallotData_def new_VoterCard_def
      scalar_value_def Buffer_from_def utf8_encode_cp_def SIZE_OF_PUBLIC_KEY_def
      Signature_Width_def)

lemma sample_bytes:
  "BallotData_serialize compact_VarInt (new_BallotData [0x50] [7]
        (new_VoterCard (replicate 32 1) (replicate 32 2) 258 (Some (replicate 64 3))) 3
        (Some (replicate 64 5))) []
   = [8, 66, 65, 76, 76, 79, 84, 32, 32, 1, 0x50, 1, 7] @ replicate 32 1 @ replicate 32 2
     @ [0xFD, 2, 1] @ replicate 64 3 @ [3] @ replicate 64 5"
  by (simp add: BallotData_serialize_eq VoterCard_serialize_eq Buffer_from_HEADER
      new_BallotData_def new_VoterCard_def compact_VarInt_def)
     (simp add: Buffer_from_def utf8_encode_cp_def compact_encode_def le_bytes_2)

lemma strict_prefix_appendI: "s \<noteq> [] \<Longrightarrow> strict_prefix p (p @ s)"
  by (simp add: strict_prefix_def)

lemma sample_card_valid:
  "valid_VoterCard (new_VoterCard (replicate 32 1) (replicate 32 2) 258 (Some (replicate 64 3)))"
  by (simp add: valid_VoterCard_def new_VoterCard_def SIZE_OF_PUBLIC_KEY_def Signature_Width_def)

lemma sample_card_bytes:
  "VoterCard_serialize compact_VarInt
     (new_VoterCard (replicate 32 1) (replicate 32 2) 258 (Some (replicate 64 3))) []
   = replicate 32 1 @ (replicate 32 2 @ [0xFD, 2, 1] @ replicate 64 3)"
  by (simp add: VoterCard_serialize_eq new_VoterCard_def compact_VarInt_def compact_encode_def
      le_bytes_2)

lemma HEADER_bytes: "Buffer_from HEADER = map of_char ''BALLOT  ''"
  by (simp add: Buffer_from_HEADER)

section \<open>Round trip of the wire format\<close>

text \<open>
  Claim C1. For every well-formed ballot record (fields as typed in the data model), and for
  every VarInt codec that decodes what it encodes, deserializing the bytes written by
  \<open>serialize\<close> gives back a record equal to the original in every field, the fields of
  the embedded card included, and consumes exactly those bytes.
\<close>

theorem BallotData_roundtrip:
  assumes "VarInt_roundtrip vi" and "valid_BallotData x"
  shows "BallotData_deserialize vi (BallotData_serialize vi x [] @ rest) = Inr (x, rest)"
  using decodes_BallotData [OF assms] by (simp add: decodes_def)

theorem BallotData_roundtrip_witness:
  "VarInt_roundtrip compact_VarInt
   \<and> valid_BallotData (new_BallotData [0x50] [7]
        (new_VoterCard (replicate 32 1) (replicate 32 2) 258 (Some (replicate 64 3))) 3
        (Some (replicate 64 5)))
   \<and> BallotData_deserialize compact_VarInt
        ([8, 66, 65, 76, 76, 79, 84, 32, 32, 1, 0x50, 1, 7] @ replicate 32 1 @ replicate 32 2
         @ [0xFD, 2, 1] @ replicate 64 3 @ [3] @ replicate 64 5 @ [])
       = Inr ((new_BallotData [0x50] [7]
        (new_VoterCard (replicate 32 1) (replicate 32 2) 258 (Some (replicate 64 3))) 3
        (Some (replicate 64 5))), [])"
  using BallotData_roundtrip [OF compact_VarInt_roundtrip sample_valid, of "[]"]
    compact_VarInt_roundtrip sample_valid
  by (simp add: sample_bytes)

section \<open>The hash input of a ballot\<close>

text \<open>
  Claim C2. For a ballot whose sequence is an unsigned 32-bit integer, \<open>computeHash\<close> appends
  exactly: the UTF-8 bytes of \<open>proposal_id\<close> without a length prefix, the ballot bytes
  without a length prefix, the hash input of the card (not its wire form), and the
  sequence in four little-endian bytes. Neither the header literal nor the signature is
  part of the stream.
\<close>

theorem BallotData_computeHash_stream:
  "sequence b < 2 ^ 32 \<Longrightarrow>
   BallotData_computeHash b buffer
     = Inr (buffer @ Buffer_from (proposal_id b) @ ballot b
            @ VoterCard_computeHash (card b) [] @ le_bytes 4 (sequence b))
   \<and> length (le_bytes 4 (sequence b)) = 4
   \<and> le_nat (le_bytes 4 (sequence b)) = sequence b"
  by (simp add: BallotData_computeHash_eq VoterCard_computeHash_eq le_nat_le_bytes_id)

theorem BallotData_computeHash_stream_witness:
  "sequence (new_BallotData [0x50, 0xE9] [7, 9]
       (new_VoterCard (replicate 32 1) (replicate 32 2) 258 None) 3 None) < 2 ^ 32
   \<and> BallotData_computeHash (new_BallotData [0x50, 0xE9] [7, 9]
       (new_VoterCard (replicate 32 1) (replicate 32 2) 258 None) 3 None) []
     = Inr ([0x50, 0xC3, 0xA9] @ [7, 9] @ (replicate 32 1 @ replicate 32 2 @ [2, 1, 0, 0, 0, 0, 0, 0])
            @ [3, 0, 0, 0])"
  using BallotData_computeHash_stream [of "new_BallotData [0x50, 0xE9] [7, 9]
       (new_VoterCard (replicate 32 1) (replicate 32 2) 258 None) 3 None" "[]"]
  by (simp add: new_BallotData_def new_VoterCard_def VoterCard_computeHash_eq Buffer_from_def
      utf8_encode_cp_def le_bytes_8 le_bytes_4)

section \<open>The hash input of a voter card\<close>

text \<open>
  Claim C3. \<open>computeHash\<close> of a voter card appends exactly: the bytes of
  \<open>validator_address\<close>, the bytes of \<open>address\<close>, and \<open>expires\<close> in eight little-endian
  bytes, whatever its magnitude; for a card with 32-byte keys the stream is 72 bytes long.
\<close>

theorem VoterCard_computeHash_stream:
  "VoterCard_computeHash c buffer
     = buffer @ validator_address c @ address c @ le_bytes 8 (expires c)
   \<and> length (le_bytes 8 (expires c)) = 8
   \<and> (expires c < 2 ^ 64 \<longrightarrow> le_nat (le_bytes 8 (expires c)) = expires c)
   \<and> (valid_VoterCard c \<longrightarrow> length (VoterCard_computeHash c []) = 72)"
  by (simp add: VoterCard_computeHash_eq le_nat_le_bytes_id valid_VoterCard_def
      SIZE_OF_PUBLIC_KEY_def)

theorem VoterCard_computeHash_stream_witness:
  "expires (new_VoterCard (replicate 32 1) (replicate 32 2) 258 None) < 2 ^ 64
   \<and> valid_VoterCard (new_VoterCard (replicate 32 1) (replicate 32 2) 258 None)
   \<and> VoterCard_computeHash (new_VoterCard (replicate 32 1) (replicate 32 2) 258 None) []
       = replicate 32 1 @ replicate 32 2 @ [2, 1, 0, 0, 0, 0, 0, 0]
   \<and> le_nat (le_bytes 8 258) = 258
   \<and> length (VoterCard_computeHash (new_VoterCard (replicate 32 1) (replicate 32 2) 258 None) []) = 72"
  using VoterCard_computeHash_stream [of "new_VoterCard (replicate 32 1) (replicate 32 2) 258 None" "[]"]
  by (simp add: new_VoterCard_def valid_VoterCard_def SIZE_OF_PUBLIC_KEY_def Signature_Width_def
      Buffer_alloc_def le_bytes_8 le_bytes_4)

section \<open>Verification of a ballot\<close>

text \<open>
  Claim C4. For a ballot whose sequence is an unsigned 32-bit integer, \<open>verify\<close> hashes the
  byte stream of \<open>computeHash\<close> and checks the stored signature of the ballot against the
  key \<open>card.address\<close> (not \<open>validator_address\<close>) over that digest. The result is a boolean
  whatever the signature is; nothing is thrown.
\<close>

theorem BallotData_verify_checks_card_address:
  "sequence b < 2 ^ 32 \<Longrightarrow>
   BallotData_computeHash b []
     = Inr (Buffer_from (proposal_id b) @ ballot b @ VoterCard_computeHash (card b) []
            @ le_bytes 4 (sequence b))
   \<and> BallotData_verify hashf sigcheck b
     = Inr (PublicKey_verify sigcheck (address (card b)) (signature b)
              (hashf (Buffer_from (proposal_id b) @ ballot b @ VoterCard_computeHash (card b) []
                      @ le_bytes 4 (sequence b))))"
  by (simp add: BallotData_verify_def hashFull_BallotData_def BallotData_computeHash_eq
      VoterCard_computeHash_eq)

theorem BallotData_verify_checks_card_address_witness:
  "sequence (new_BallotData [0x50] [7] (new_VoterCard [1] [2] 0 None) 3 (Some (replicate 64 5)))
     < 2 ^ 32
   \<and> BallotData_verify (\<lambda>m. m) (\<lambda>key sg msg. key = [2])
        (new_BallotData [0x50] [7] (new_VoterCard [1] [2] 0 None) 3 (Some (replicate 64 5)))
       = Inr True
   \<and> BallotData_verify (\<lambda>m. m) (\<lambda>key sg msg. key = [1])
        (new_BallotData [0x50] [7] (new_VoterCard [1] [2] 0 None) 3 (Some (replicate 64 5)))
       = Inr False"
  using BallotData_verify_checks_card_address
     [of "new_BallotData [0x50] [7] (new_VoterCard [1] [2] 0 None) 3 (Some (replicate 64 5))"
         "\<lambda>m. m" "\<lambda>key sg msg. key = [2]"]
    BallotData_verify_checks_card_address
     [of "new_BallotData [0x50] [7] (new_VoterCard [1] [2] 0 None) 3 (Some (replicate 64 5))"
         "\<lambda>m. m" "\<lambda>key sg msg. key = [1]"]
  by (simp add: new_BallotData_def new_VoterCard_def PublicKey_verify_def Signature_Width_def
      Buffer_alloc_def replicate_eq_replicate)

section \<open>The default signature\<close>

text \<open>
  Claim C5. A voter card or a ballot constructed without a signature stores 64 zero bytes
  as its signature, and \<open>verify\<close> on such a record is false.
\<close>

theorem default_signature_fails_verify:
  "VoterCard.signature (new_VoterCard va a e None) = replicate 64 0
   \<and> \<not> VoterCard_verify hashf sigcheck (new_VoterCard va a e None)
   \<and> signature (new_BallotData pid bl c sq None) = replicate 64 0
   \<and> BallotData_verify hashf sigcheck (new_BallotData pid bl c sq None) \<noteq> Inr True
   \<and> (sq < 2 ^ 32 \<longrightarrow>
        BallotData_verify hashf sigcheck (new_BallotData pid bl c sq None) = Inr False)"
  by (simp add: new_VoterCard_def new_BallotData_def VoterCard_verify_def BallotData_verify_def
      hashFull_BallotData_def BallotData_computeHash_eq PublicKey_verify_def Buffer_alloc_def
      Signature_Width_def)

theorem default_signature_fails_verify_witness:
  "(3::nat) < 2 ^ 32
   \<and> signature (new_BallotData [0x50] [7] (new_VoterCard [1] [2] 0 None) 3 None) = replicate 64 0
   \<and> BallotData_verify (\<lambda>m. m) (\<lambda>key sg msg. True)
        (new_BallotData [0x50] [7] (new_VoterCard [1] [2] 0 None) 3 None) = Inr False
   \<and> BallotData_verify (\<lambda>m. m) (\<lambda>key sg msg. True)
        (new_BallotData [0x50] [7] (new_VoterCard [1] [2] 0 None) 3 (Some (replicate 64 5)))
       = Inr True"
  using default_signature_fails_verify
     [of "[1]" "[2]" 0 "\<lambda>m. m" "\<lambda>key sg msg. True" "[0x50]" "[7]" "new_VoterCard [1] [2] 0 None" 3]
  by (simp add: new_BallotData_def BallotData_verify_def hashFull_BallotData_def
      BallotData_computeHash_eq PublicKey_verify_def Buffer_alloc_def Signature_Width_def
      replicate_eq_replicate)

section \<open>Rejection of a foreign header\<close>

text \<open>
  Claim C6. If the first length-prefixed block of the buffer is present (its length is
  decoded and that many bytes remain) and differs from the eight ASCII bytes \<open>BALLOT\<close>
  followed by two spaces, then \<open>BallotData.deserialize\<close> throws the header error and
  returns no record.
\<close>

theorem BallotData_deserialize_header_rejected:
  "toNumber vi buffer = Inr (n, rest) \<Longrightarrow> n \<le> length rest \<Longrightarrow>
   take n rest \<noteq> map of_char ''BALLOT  '' \<Longrightarrow>
   BallotData_deserialize vi buffer = Inl FormatError"
  by (simp add: BallotData_deserialize_def readBuffer_def toString_eq_HEADER HEADER_bytes)

theorem BallotData_deserialize_header_rejected_witness:
  "toNumber compact_VarInt [3, 0x41, 0x42, 0x43] = Inr (3, [0x41, 0x42, 0x43])
   \<and> (3::nat) \<le> length [0x41, 0x42, 0x43 :: byte]
   \<and> take 3 [0x41, 0x42, 0x43] \<noteq> (map of_char ''BALLOT  '' :: Buffer)
   \<and> BallotData_deserialize compact_VarInt [3, 0x41, 0x42, 0x43] = Inl FormatError"
proof -
  have d: "toNumber compact_VarInt [3, 0x41, 0x42, 0x43] = Inr (3, [0x41, 0x42, 0x43])"
    by (simp add: compact_VarInt_def compact_decode_def)
  have l: "(3::nat) \<le> length [0x41, 0x42, 0x43 :: byte]" by simp
  have n: "take 3 [0x41, 0x42, 0x43] \<noteq> (map of_char ''BALLOT  '' :: Buffer)" by simp
  show ?thesis using BallotData_deserialize_header_rejected [OF d l n] d l n by simp
qed

section \<open>Truncated buffers\<close>

text \<open>
  Claim C7. For every codec and every buffer, field by field: when fewer bytes remain than
  a fixed-width field or a length-prefixed block requires, \<open>VoterCard.deserialize\<close> and
  \<open>BallotData.deserialize\<close> throw an underrun, and when a VarInt decoder throws, its
  throw is the result; only when every field completes is a record returned, and it is
  the record of those fields. A returned card has 32-byte keys and a 64-byte signature; a
  returned ballot has such a card, a 64-byte signature and was read after a complete
  header. For a codec whose only throw is the underrun, every failure of
  \<open>VoterCard.deserialize\<close> is an underrun, and every failure of \<open>BallotData.deserialize\<close>
  is an underrun or the header error on a complete header block. For a codec that meets
  the round-trip and prefix contract, every proper prefix of the wire bytes of a
  well-formed card or ballot is an underrun.
\<close>

theorem truncated_buffer_underrun:
  "((length buffer < 64 \<longrightarrow> VoterCard_deserialize vi buffer = Inl UnderrunError)
    \<and> (64 \<le> length buffer \<longrightarrow>
        (toJSBI vi (drop 64 buffer) = Inl e \<longrightarrow> VoterCard_deserialize vi buffer = Inl e)
      \<and> (toJSBI vi (drop 64 buffer) = Inr (ex, r) \<longrightarrow>
           (length r < 64 \<longrightarrow> VoterCard_deserialize vi buffer = Inl UnderrunError)
         \<and> (64 \<le> length r \<longrightarrow>
              VoterCard_deserialize vi buffer
                = Inr (\<lparr>validator_address = take 32 buffer, address = take 32 (drop 32 buffer),
                        expires = ex, signature = take 64 r\<rparr>, drop 64 r)))))
   \<and> ((toNumber vi buffer = Inl e \<longrightarrow> BallotData_deserialize vi buffer = Inl e)
   \<and> (toNumber vi buffer = Inr (n0, r0) \<longrightarrow>
     (length r0 < n0 \<longrightarrow> BallotData_deserialize vi buffer = Inl UnderrunError)
   \<and> (n0 \<le> length r0 \<and> take n0 r0 = Buffer_from HEADER \<longrightarrow>
     (toNumber vi (drop n0 r0) = Inl e \<longrightarrow> BallotData_deserialize vi buffer = Inl e)
   \<and> (toNumber vi (drop n0 r0) = Inr (n1, r1) \<longrightarrow>
     (length r1 < n1 \<longrightarrow> BallotData_deserialize vi buffer = Inl UnderrunError)
   \<and> (n1 \<le> length r1 \<longrightarrow>
     (toNumber vi (drop n1 r1) = Inl e \<longrightarrow> BallotData_deserialize vi buffer = Inl e)
   \<and> (toNumber vi (drop n1 r1) = Inr (n2, r2) \<longrightarrow>
     (length r2 < n2 \<longrightarrow> BallotData_deserialize vi buffer = Inl UnderrunError)
   \<and> (n2 \<le> length r2 \<longrightarrow>
     (VoterCard_deserialize vi (drop n2 r2) = Inl e \<longrightarrow> BallotData_deserialize vi buffer = Inl e)
   \<and> (VoterCard_deserialize vi (drop n2 r2) = Inr (c, r3) \<longrightarrow>
     (toNumber vi r3 = Inl e \<longrightarrow> BallotData_deserialize vi buffer = Inl e)
   \<and> (toNumber vi r3 = Inr (sq, r4) \<longrightarrow>
     (length r4 < 64 \<longrightarrow> BallotData_deserialize vi buffer = Inl UnderrunError)
   \<and> (64 \<le> length r4 \<longrightarrow>
        BallotData_deserialize vi buffer
          = Inr (\<lparr>proposal_id = toString (take n1 r1), ballot = take n2 r2, card = c,
                  sequence = sq, signature = take 64 r4\<rparr>, drop 64 r4)))))))))))
   \<and> (VoterCard_deserialize vi buffer = Inr (c', rest) \<longrightarrow>
        length (validator_address c') = 32 \<and> length (address c') = 32
        \<and> length (VoterCard.signature c') = 64)
   \<and> (BallotData_deserialize vi buffer = Inr (x', rest') \<longrightarrow>
        length (validator_address (card x')) = 32 \<and> length (address (card x')) = 32
        \<and> length (VoterCard.signature (card x')) = 64 \<and> length (signature x') = 64
        \<and> (\<exists>n r. toNumber vi buffer = Inr (n, r) \<and> n \<le> length r
                   \<and> take n r = Buffer_from HEADER))
   \<and> (VarInt_throws_underrun vi \<longrightarrow>
        (VoterCard_deserialize vi buffer = Inl e' \<longrightarrow> e' = UnderrunError)
        \<and> (BallotData_deserialize vi buffer = Inl e' \<longrightarrow>
             e' = UnderrunError
             \<or> (e' = FormatError
                 \<and> (\<exists>n r. toNumber vi buffer = Inr (n, r) \<and> n \<le> length r
                            \<and> take n r \<noteq> Buffer_from HEADER))))
   \<and> (VarInt_roundtrip vi \<and> VarInt_underrun vi \<longrightarrow>
        (valid_VoterCard cv \<and> strict_prefix p (VoterCard_serialize vi cv [])
            \<longrightarrow> VoterCard_deserialize vi p = Inl UnderrunError)
        \<and> (valid_BallotData xv \<and> strict_prefix q (BallotData_serialize vi xv [])
            \<longrightarrow> BallotData_deserialize vi q = Inl UnderrunError))"
proof -
  have P1: "VoterCard_deserialize vi buffer = Inr (c', rest) \<longrightarrow>
        length (validator_address c') = 32 \<and> length (address c') = 32
        \<and> length (VoterCard.signature c') = 64"
    using VoterCard_deserialize_Inr [of vi buffer c' rest] by auto
  have P2: "BallotData_deserialize vi buffer = Inr (x', rest') \<longrightarrow>
        length (validator_address (card x')) = 32 \<and> length (address (card x')) = 32
        \<and> length (VoterCard.signature (card x')) = 64 \<and> length (signature x') = 64
        \<and> (\<exists>n r. toNumber vi buffer = Inr (n, r) \<and> n \<le> length r
                   \<and> take n r = Buffer_from HEADER)"
  proof
    assume "BallotData_deserialize vi buffer = Inr (x', rest')"
    then obtain n0 r0 n2 r2 r3 r4 where
      h: "toNumber vi buffer = Inr (n0, r0)" "n0 \<le> length r0" "take n0 r0 = Buffer_from HEADER"
      and c: "VoterCard_deserialize vi (drop n2 r2) = Inr (card x', r3)"
      and s: "64 \<le> length r4" "signature x' = take 64 r4"
      using BallotData_deserialize_Inr [of vi buffer x' rest'] by blast
    show "length (validator_address (card x')) = 32 \<and> length (address (card x')) = 32
        \<and> length (VoterCard.signature (card x')) = 64 \<and> length (signature x') = 64
        \<and> (\<exists>n r. toNumber vi buffer = Inr (n, r) \<and> n \<le> length r
                   \<and> take n r = Buffer_from HEADER)"
      using VoterCard_deserialize_Inr [OF c] h s by auto
  qed
  have P3: "VarInt_throws_underrun vi \<longrightarrow>
        (VoterCard_deserialize vi buffer = Inl e' \<longrightarrow> e' = UnderrunError)
        \<and> (BallotData_deserialize vi buffer = Inl e' \<longrightarrow>
             e' = UnderrunError
             \<or> (e' = FormatError
                 \<and> (\<exists>n r. toNumber vi buffer = Inr (n, r) \<and> n \<le> length r
                            \<and> take n r \<noteq> Buffer_from HEADER)))"
    using VoterCard_deserialize_Inl [of vi buffer e'] BallotData_deserialize_Inl [of vi buffer e']
    by blast
  have P4: "VarInt_roundtrip vi \<and> VarInt_underrun vi \<longrightarrow>
        (valid_VoterCard cv \<and> strict_prefix p (VoterCard_serialize vi cv [])
            \<longrightarrow> VoterCard_deserialize vi p = Inl UnderrunError)
        \<and> (valid_BallotData xv \<and> strict_prefix q (BallotData_serialize vi xv [])
            \<longrightarrow> BallotData_deserialize vi q = Inl UnderrunError)"
    using underruns_VoterCard [of vi cv] underruns_BallotData [of vi xv]
    by (simp add: underruns_def)
  show ?thesis
    by (rule conjI [OF VoterCard_deserialize_walk
          conjI [OF BallotData_deserialize_walk conjI [OF P1 conjI [OF P2 conjI [OF P3 P4]]]]])
qed


theorem truncated_buffer_underrun_witness:
  "VarInt_throws_underrun compact_VarInt \<and> VarInt_roundtrip compact_VarInt
   \<and> VarInt_underrun compact_VarInt
   \<and> toNumber compact_VarInt [9, 66, 65, 76, 76, 79, 84, 32, 32]
       = Inr (9, [66, 65, 76, 76, 79, 84, 32, 32])
   \<and> BallotData_deserialize compact_VarInt [9, 66, 65, 76, 76, 79, 84, 32, 32]
       = Inl UnderrunError
   \<and> toNumber compact_VarInt [] = Inl UnderrunError
   \<and> BallotData_deserialize compact_VarInt [8, 66, 65, 76, 76, 79, 84, 32, 32, 1, 0xFF]
       = Inl UnderrunError
   \<and> VoterCard_deserialize compact_VarInt (replicate 32 1) = Inl UnderrunError
   \<and> valid_VoterCard (new_VoterCard (replicate 32 1) (replicate 32 2) 258 (Some (replicate 64 3)))
   \<and> strict_prefix (replicate 32 1 @ replicate 32 2 @ [0xFD, 2])
        (VoterCard_serialize compact_VarInt
           (new_VoterCard (replicate 32 1) (replicate 32 2) 258 (Some (replicate 64 3))) [])
   \<and> VoterCard_deserialize compact_VarInt (replicate 32 1 @ replicate 32 2 @ [0xFD, 2])
       = Inl UnderrunError
   \<and> valid_BallotData (new_BallotData [0x50] [7]
        (new_VoterCard (replicate 32 1) (replicate 32 2) 258 (Some (replicate 64 3))) 3
        (Some (replicate 64 5)))
   \<and> strict_prefix [8, 66, 65, 76, 76, 79, 84, 32, 32, 1]
        (BallotData_serialize compact_VarInt (new_BallotData [0x50] [7]
        (new_VoterCard (replicate 32 1) (replicate 32 2) 258 (Some (replicate 64 3))) 3
        (Some (replicate 64 5))) [])
   \<and> BallotData_deserialize compact_VarInt [8, 66, 65, 76, 76, 79, 84, 32, 32, 1]
       = Inl UnderrunError"
proof -
  note T = truncated_buffer_underrun
  have n9: "toNumber compact_VarInt [9, 66, 65, 76, 76, 79, 84, 32, 32]
       = Inr (9, [66, 65, 76, 76, 79, 84, 32, 32])"
    by (simp add: compact_VarInt_def compact_decode_def)
  have short_header: "BallotData_deserialize compact_VarInt [9, 66, 65, 76, 76, 79, 84, 32, 32]
       = Inl UnderrunError"
    using T [where vi = compact_VarInt and buffer = "[9, 66, 65, 76, 76, 79, 84, 32, 32]"
        and ?n0.0 = 9 and ?r0.0 = "[66, 65, 76, 76, 79, 84, 32, 32]",
        THEN conjunct2, THEN conjunct1] n9
    by simp
  have n0: "toNumber compact_VarInt [] = Inl UnderrunError"
    by (simp add: compact_VarInt_def compact_decode_def)
  have n8: "toNumber compact_VarInt [8, 66, 65, 76, 76, 79, 84, 32, 32, 1, 0xFF]
       = Inr (8, [66, 65, 76, 76, 79, 84, 32, 32, 1, 0xFF])"
    by (simp add: compact_VarInt_def compact_decode_def)
  have n1: "toNumber compact_VarInt [1, 0xFF] = Inr (1, [0xFF])"
    by (simp add: compact_VarInt_def compact_decode_def)
  have no_ballot_length:
    "BallotData_deserialize compact_VarInt [8, 66, 65, 76, 76, 79, 84, 32, 32, 1, 0xFF]
       = Inl UnderrunError"
    using T [where vi = compact_VarInt
        and buffer = "[8, 66, 65, 76, 76, 79, 84, 32, 32, 1, 0xFF]"
        and ?n0.0 = 8 and ?r0.0 = "[66, 65, 76, 76, 79, 84, 32, 32, 1, 0xFF]"
        and ?n1.0 = 1 and ?r1.0 = "[0xFF]" and e = UnderrunError,
        THEN conjunct2, THEN conjunct1] n8 n1 n0
    by (simp add: Buffer_from_HEADER)
  have short_card: "VoterCard_deserialize compact_VarInt (replicate 32 1) = Inl UnderrunError"
    using T [where vi = compact_VarInt and buffer = "replicate 32 1", THEN conjunct1] by simp
  have "replicate 32 1 @ (replicate 32 2 @ [0xFD, 2, 1] @ replicate 64 3)
        = (replicate 32 1 @ replicate 32 2 @ [0xFD, 2 :: byte]) @ ([1] @ replicate 64 3)"
    by simp
  then have p: "strict_prefix (replicate 32 1 @ replicate 32 2 @ [0xFD, 2])
        (VoterCard_serialize compact_VarInt
           (new_VoterCard (replicate 32 1) (replicate 32 2) 258 (Some (replicate 64 3))) [])"
    unfolding sample_card_bytes
    by (simp only: strict_prefix_appendI append_is_Nil_conv list.distinct simp_thms)
  have "[8, 66, 65, 76, 76, 79, 84, 32, 32, 1, 0x50, 1, 7] @ replicate 32 1 @ replicate 32 2
          @ [0xFD, 2, 1] @ replicate 64 3 @ [3] @ replicate 64 5
        = [8, 66, 65, 76, 76, 79, 84, 32, 32, 1 :: byte]
          @ ([0x50, 1, 7] @ replicate 32 1 @ replicate 32 2
             @ [0xFD, 2, 1] @ replicate 64 3 @ [3] @ replicate 64 5)"
    by simp
  then have q: "strict_prefix [8, 66, 65, 76, 76, 79, 84, 32, 32, 1]
        (BallotData_serialize compact_VarInt (new_BallotData [0x50] [7]
        (new_VoterCard (replicate 32 1) (replicate 32 2) 258 (Some (replicate 64 3))) 3
        (Some (replicate 64 5))) [])"
    unfolding sample_bytes
    by (simp only: strict_prefix_appendI append_is_Nil_conv list.distinct simp_thms)
  note P = T [where vi = compact_VarInt
        and cv = "new_VoterCard (replicate 32 1) (replicate 32 2) 258 (Some (replicate 64 3))"
        and p = "replicate 32 1 @ replicate 32 2 @ [0xFD, 2]"
        and xv = "new_BallotData [0x50] [7]
              (new_VoterCard (replicate 32 1) (replicate 32 2) 258 (Some (replicate 64 3))) 3
              (Some (replicate 64 5))"
        and q = "[8, 66, 65, 76, 76, 79, 84, 32, 32, 1]",
        THEN conjunct2, THEN conjunct2, THEN conjunct2, THEN conjunct2, THEN conjunct2,
        THEN mp, OF conjI [OF compact_VarInt_roundtrip compact_VarInt_underrun]]
  have card_prefix:
    "VoterCard_deserialize compact_VarInt (replicate 32 1 @ replicate 32 2 @ [0xFD, 2])
       = Inl UnderrunError"
    by (rule P [THEN conjunct1, THEN mp, OF conjI [OF sample_card_valid p]])
  have ballot_prefix:
    "BallotData_deserialize compact_VarInt [8, 66, 65, 76, 76, 79, 84, 32, 32, 1]
       = Inl UnderrunError"
    by (rule P [THEN conjunct2, THEN mp, OF conjI [OF sample_valid q]])
  show ?thesis
    by (intro conjI) (fact compact_VarInt_throws_underrun compact_VarInt_roundtrip
        compact_VarInt_underrun n9 short_header n0 no_ballot_length short_card
        sample_card_valid p card_prefix sample_valid q ballot_prefix)+
qed

section \<open>Who holds the card\<close>

text \<open>
  Claim C8, as amended. The constructor of a ballot stores the reference to the card it is
  given: no copy is taken, the new ballot shares the card with its caller and with every
  other ballot built from the same card. \<open>BallotData.deserialize\<close> builds a new card: the
  reference held by the returned ballot is not a reference of the store before the call,
  the cards that existed keep their contents, and the new card is the one read from the
  buffer.
\<close>

theorem BallotData_card_ownership:
  "card (new_BallotData pid bl (r::ref) sq sg) = r
   \<and> (BallotData_deserialize_store vi buffer st = Inr (b, rest, st') \<longrightarrow>
        card b = length st \<and> length st' = Suc (length st) \<and> take (length st) st' = st
        \<and> (\<exists>x. BallotData_deserialize vi buffer = Inr (x, rest) \<and> st' ! card b = card x))"
  by (auto simp add: new_BallotData_def BallotData_deserialize_store_def alloc_VoterCard_def
      split: sum.splits prod.splits)

theorem BallotData_card_ownership_witness:
  "BallotData_deserialize_store compact_VarInt
      ([8, 66, 65, 76, 76, 79, 84, 32, 32, 1, 0x50, 1, 7] @ replicate 32 1 @ replicate 32 2
         @ [0xFD, 2, 1] @ replicate 64 3 @ [3] @ replicate 64 5 @ [])
      [new_VoterCard [1] [2] 5 None]
    = Inr (new_BallotData [0x50] [7] (1::ref) 3 (Some (replicate 64 5)), [],
           [new_VoterCard [1] [2] 5 None,
            new_VoterCard (replicate 32 1) (replicate 32 2) 258 (Some (replicate 64 3))])
   \<and> card (new_BallotData [0x50] [7] (1::ref) 3 (Some (replicate 64 5)))
       = length [new_VoterCard [1] [2] 5 None]"
proof -
  have d: "BallotData_deserialize compact_VarInt
      ([8, 66, 65, 76, 76, 79, 84, 32, 32, 1, 0x50, 1, 7] @ replicate 32 1 @ replicate 32 2
         @ [0xFD, 2, 1] @ replicate 64 3 @ [3] @ replicate 64 5 @ [])
      = Inr (new_BallotData [0x50] [7]
        (new_VoterCard (replicate 32 1) (replicate 32 2) 258 (Some (replicate 64 3))) 3
        (Some (replicate 64 5)), [])"
    using decodes_BallotData [OF compact_VarInt_roundtrip sample_valid, unfolded decodes_def,
        THEN spec, of "[]"]
    by (simp add: sample_bytes)
  have e: "BallotData_deserialize_store compact_VarInt
      ([8, 66, 65, 76, 76, 79, 84, 32, 32, 1, 0x50, 1, 7] @ replicate 32 1 @ replicate 32 2
         @ [0xFD, 2, 1] @ replicate 64 3 @ [3] @ replicate 64 5 @ [])
      [new_VoterCard [1] [2] 5 None]
    = Inr (new_BallotData [0x50] [7] (1::ref) 3 (Some (replicate 64 5)), [],
           [new_VoterCard [1] [2] 5 None,
            new_VoterCard (replicate 32 1) (replicate 32 2) 258 (Some (replicate 64 3))])"
    unfolding BallotData_deserialize_store_def d
    by (simp add: alloc_VoterCard_def new_BallotData_def)
  show ?thesis
    using BallotData_card_ownership [of "[0x50]" "[7]" 1 3 "Some (replicate 64 5)" compact_VarInt
        "[8, 66, 65, 76, 76, 79, 84, 32, 32, 1, 0x50, 1, 7] @ replicate 32 1 @ replicate 32 2
         @ [0xFD, 2, 1] @ replicate 64 3 @ [3] @ replicate 64 5 @ []"
        "[new_VoterCard [1] [2] 5 None]"
        "new_BallotData [0x50] [7] (1::ref) 3 (Some (replicate 64 5))" "[]"
        "[new_VoterCard [1] [2] 5 None,
            new_VoterCard (replicate 32 1) (replicate 32 2) 258 (Some (replicate 64 3))]"] e
    by simp
qed

text \<open>
  The claim as first stated, that construction takes a deep copy so that no two ballots
  share a card, fails: two ballots constructed from the reference \<open>0\<close> hold the same
  reference, and a write to \<open>expires\<close> through the first is read through the second.
\<close>

theorem BallotData_card_deep_copy_counterexample:
  "card (new_BallotData [0x41] [] (0::ref) 0 None) = card (new_BallotData [0x42] [] (0::ref) 1 None)
   \<and> expires ([new_VoterCard [1] [2] 5 None] ! card (new_BallotData [0x42] [] (0::ref) 1 None)) = 5
   \<and> expires (([new_VoterCard [1] [2] 5 None])
          [card (new_BallotData [0x41] [] (0::ref) 0 None)
             := (new_VoterCard [1] [2] 5 None)\<lparr>expires := 99\<rparr>]
         ! card (new_BallotData [0x42] [] (0::ref) 1 None)) = 99"
  by (simp add: new_BallotData_def new_VoterCard_def)

section \<open>The hash input does not separate proposal from ballot\<close>

text \<open>
  Claim C9. \<open>computeHash\<close> is not injective in \<open>proposal_id\<close> and \<open>ballot\<close>. Moving a tail
  of \<open>proposal_id\<close> across the boundary, to the front of \<open>ballot\<close>, leaves the hash input
  unchanged, since neither field is length-prefixed. So for every card, sequence and
  signature there are two ballots with different (\<open>proposal_id\<close>, \<open>ballot\<close>) pairs whose
  hash inputs are equal; they have the same digest under every hash function, and \<open>verify\<close>
  gives the same answer on both under every signature check.
\<close>

theorem BallotData_computeHash_not_injective:
  "BallotData_computeHash
      \<lparr>proposal_id = p @ q, ballot = bl, card = c, sequence = sq, signature = sg\<rparr> buffer
     = BallotData_computeHash
      \<lparr>proposal_id = p, ballot = Buffer_from q @ bl, card = c, sequence = sq, signature = sg\<rparr>
      buffer
   \<and> (\<exists>pid1 bl1 pid2 bl2.
     (pid1, bl1) \<noteq> (pid2, bl2) \<and>
     BallotData_computeHash
        \<lparr>proposal_id = pid1, ballot = bl1, card = c, sequence = sq, signature = sg\<rparr> buffer
       = BallotData_computeHash
        \<lparr>proposal_id = pid2, ballot = bl2, card = c, sequence = sq, signature = sg\<rparr> buffer \<and>
     hashFull_BallotData hashf
        \<lparr>proposal_id = pid1, ballot = bl1, card = c, sequence = sq, signature = sg\<rparr>
       = hashFull_BallotData hashf
        \<lparr>proposal_id = pid2, ballot = bl2, card = c, sequence = sq, signature = sg\<rparr> \<and>
     BallotData_verify hashf sigcheck
        \<lparr>proposal_id = pid1, ballot = bl1, card = c, sequence = sq, signature = sg\<rparr>
       = BallotData_verify hashf sigcheck
        \<lparr>proposal_id = pid2, ballot = bl2, card = c, sequence = sq, signature = sg\<rparr>)"
proof
  show "BallotData_computeHash
      \<lparr>proposal_id = p @ q, ballot = bl, card = c, sequence = sq, signature = sg\<rparr> buffer
     = BallotData_computeHash
      \<lparr>proposal_id = p, ballot = Buffer_from q @ bl, card = c, sequence = sq, signature = sg\<rparr>
      buffer"
    by (simp add: BallotData_computeHash_eq Buffer_from_append)
next
  have e: "Buffer_from [0x41, 0x42] @ [] = Buffer_from [0x41] @ [0x42]"
    by (simp add: Buffer_from_def utf8_encode_cp_def)
  have h: "BallotData_computeHash
        \<lparr>proposal_id = [0x41, 0x42], ballot = [], card = c, sequence = sq, signature = sg\<rparr> buf
       = BallotData_computeHash
        \<lparr>proposal_id = [0x41], ballot = [0x42], card = c, sequence = sq, signature = sg\<rparr> buf"
    for buf
    using e by (simp add: BallotData_computeHash_eq)
  show "\<exists>pid1 bl1 pid2 bl2.
     (pid1, bl1) \<noteq> (pid2, bl2) \<and>
     BallotData_computeHash
        \<lparr>proposal_id = pid1, ballot = bl1, card = c, sequence = sq, signature = sg\<rparr> buffer
       = BallotData_computeHash
        \<lparr>proposal_id = pid2, ballot = bl2, card = c, sequence = sq, signature = sg\<rparr> buffer \<and>
     hashFull_BallotData hashf
        \<lparr>proposal_id = pid1, ballot = bl1, card = c, sequence = sq, signature = sg\<rparr>
       = hashFull_BallotData hashf
        \<lparr>proposal_id = pid2, ballot = bl2, card = c, sequence = sq, signature = sg\<rparr> \<and>
     BallotData_verify hashf sigcheck
        \<lparr>proposal_id = pid1, ballot = bl1, card = c, sequence = sq, signature = sg\<rparr>
       = BallotData_verify hashf sigcheck
        \<lparr>proposal_id = pid2, ballot = bl2, card = c, sequence = sq, signature = sg\<rparr>"
    apply (rule exI [of _ "[0x41, 0x42]"], rule exI [of _ "[]"])
    apply (rule exI [of _ "[0x41]"], rule exI [of _ "[0x42]"])
    apply (simp add: hashFull_BallotData_def BallotData_verify_def h split: sum.splits)
    done
qed

section \<open>The signature is not hashed\<close>

text \<open>
  Claim C10. The hash input of a voter card and of a ballot does not depend on the
  signature field: replacing the signature of a card, of a ballot, or of the card inside a
  ballot leaves the byte stream of \<open>computeHash\<close>, and so the digest, unchanged.
\<close>

theorem signature_not_hashed:
  "VoterCard_computeHash (c\<lparr>VoterCard.signature := s\<rparr>) buffer = VoterCard_computeHash c buffer
   \<and> BallotData_computeHash (b\<lparr>signature := s\<rparr>) buffer = BallotData_computeHash b buffer
   \<and> BallotData_computeHash (b\<lparr>card := (card b)\<lparr>VoterCard.signature := s\<rparr>\<rparr>) buffer
       = BallotData_computeHash b buffer
   \<and> hashFull_VoterCard hashf (c\<lparr>VoterCard.signature := s\<rparr>) = hashFull_VoterCard hashf c
   \<and> hashFull_BallotData hashf (b\<lparr>signature := s\<rparr>) = hashFull_BallotData hashf b"
  by (simp add: VoterCard_computeHash_eq BallotData_computeHash_eq hashFull_VoterCard_def
      hashFull_BallotData_def)

end
